theory Spec2Isabelle
  imports Complex_Main "HOL-Library.Char_ord" "HOL-Library.List_Lexorder" "HOL-Library.Multiset"
begin

section \<open>JavaScript numbers and strings\<close>

text \<open>
  The survey map keeps its view state (zoom, latitude, longitude, selected cell) in the
  page URL. The functions below embed \<^verbatim>\<open>hooks/use-url-state.ts\<close>,
  the search handle and the GeoJSON loader of \<^verbatim>\<open>components/map-container.tsx\<close>, the
  search box and the page's \<^verbatim>\<open>handleSearchById\<close>.

  A JavaScript number is \<open>NaN\<close>, an infinity or a finite value. Finite values are
  modelled as exact rationals: the rounding of IEEE doubles is not part of the model
  (products and quotients are exact). Strings are lists of 8-bit characters read as
  ASCII text; characters outside ASCII have no case and are not white space here.
\<close>

datatype jsnum = NaN | Fin rat | PosInf | NegInf

fun isNaN :: "jsnum \<Rightarrow> bool" where
  "isNaN NaN = True"
| "isNaN _ = False"

text \<open>\<^verbatim>\<open>Math.round\<close>: the nearest integer, a tie going towards plus infinity.\<close>

fun Math_round :: "jsnum \<Rightarrow> jsnum" where
  "Math_round (Fin r) = Fin (of_int \<lfloor>r + 1 / 2\<rfloor>)"
| "Math_round x = x"

text \<open>
  \<^verbatim>\<open>x * k\<close> and \<^verbatim>\<open>x / k\<close> for a positive finite constant \<open>k\<close>. The result is exact
  here; the engine rounds it to the nearest double, which can move the integer that
  \<^verbatim>\<open>Math.round\<close> makes of a product by one when the product is next to a tie. The
  theorems of the claims do not depend on which of the two integers it is.
\<close>

fun js_times :: "jsnum \<Rightarrow> rat \<Rightarrow> jsnum" where
  "js_times (Fin r) k = Fin (r * k)"
| "js_times x k = x"

fun js_divide :: "jsnum \<Rightarrow> rat \<Rightarrow> jsnum" where
  "js_divide (Fin r) k = Fin (r / k)"
| "js_divide x k = x"

subsection \<open>Strings\<close>

text \<open>White space and line terminators (the ASCII ones): TAB, LF, VT, FF, CR, SP.\<close>

definition is_ws :: "char \<Rightarrow> bool" where
  "is_ws c = (c = CHR 0x09 \<or> c = CHR 0x0A \<or> c = CHR 0x0B \<or> c = CHR 0x0C \<or> c = CHR 0x0D \<or> c = CHR '' '')"

definition trim :: "string \<Rightarrow> string" where
  "trim s = rev (dropWhile is_ws (rev (dropWhile is_ws s)))"

definition toLowerCase_char :: "char \<Rightarrow> char" where
  "toLowerCase_char c =
     (if CHR ''A'' \<le> c \<and> c \<le> CHR ''Z'' then char_of (of_char c + (32::nat)) else c)"

definition toLowerCase :: "string \<Rightarrow> string" where
  "toLowerCase s = map toLowerCase_char s"

definition startsWith :: "string \<Rightarrow> string \<Rightarrow> bool" where
  "startsWith s p = (take (length p) s = p)"

text \<open>\<^verbatim>\<open>s.includes(t)\<close>: \<open>t\<close> occurs in \<open>s\<close> at some position.\<close>

fun js_includes :: "string \<Rightarrow> string \<Rightarrow> bool" where
  "js_includes [] t = (t = [])"
| "js_includes (c # cs) t = (startsWith (c # cs) t \<or> js_includes cs t)"

text \<open>\<^verbatim>\<open>s.split(sep)\<close> for a one-character separator; the empty string gives one empty part.\<close>

fun split :: "char \<Rightarrow> string \<Rightarrow> string list" where
  "split sep [] = [[]]"
| "split sep (c # cs) =
     (if c = sep then [] # split sep cs
      else (case split sep cs of [] \<Rightarrow> [[c]] | p # ps \<Rightarrow> (c # p) # ps))"

subsection \<open>Numbers to strings\<close>

definition digit_char :: "nat \<Rightarrow> char" where
  "digit_char d = char_of (48 + d)"

fun digits_of :: "nat \<Rightarrow> string" where
  "digits_of n = (if n < 10 then [digit_char n] else digits_of (n div 10) @ [digit_char (n mod 10)])"

declare digits_of.simps [simp del]

definition int_toString :: "int \<Rightarrow> string" where
  "int_toString n = (if n < 0 then CHR ''-'' # digits_of (nat (- n)) else digits_of (nat n))"

text \<open>
  The string a template literal prints for a number. Only values that \<^verbatim>\<open>Math.round\<close>
  returned are printed by the code, so a finite value is an integer; it prints in decimal.
  That is what the engine prints up to \<open>2\<^sup>5\<^sup>3\<close>; beyond, it prints the shortest digits that
  identify the double, and from \<open>10\<^sup>2\<^sup>1\<close> on an exponent. In every case the text has no
  slash and no underscore and \<open>Number\<close> reads it back, which is all that the statements
  about the written fragment use outside the ranges of the view state.
\<close>

fun ToString :: "jsnum \<Rightarrow> string" where
  "ToString NaN = ''NaN''"
| "ToString PosInf = ''Infinity''"
| "ToString NegInf = ''-Infinity''"
| "ToString (Fin r) = int_toString \<lfloor>r\<rfloor>"

subsection \<open>Strings to numbers\<close>

text \<open>
  \<^verbatim>\<open>Number(s)\<close> on a string, after the grammar \<open>StringNumericLiteral\<close> of ECMAScript:
  white space is stripped at both ends; nothing left is \<open>0\<close>; then a binary, octal or
  hexadecimal integer without sign, or a signed decimal literal (\<open>Infinity\<close>, digits with an
  optional fraction and an optional exponent); anything else is \<open>NaN\<close>.
\<close>

definition digit_of :: "char \<Rightarrow> nat option" where
  "digit_of c =
     (if CHR ''0'' \<le> c \<and> c \<le> CHR ''9'' then Some (of_char c - 48)
      else if CHR ''a'' \<le> c \<and> c \<le> CHR ''f'' then Some (of_char c - 87)
      else if CHR ''A'' \<le> c \<and> c \<le> CHR ''F'' then Some (of_char c - 55)
      else None)"

fun parse_nat_acc :: "nat \<Rightarrow> nat \<Rightarrow> string \<Rightarrow> nat option" where
  "parse_nat_acc b acc [] = Some acc"
| "parse_nat_acc b acc (c # cs) =
     (case digit_of c of
        None \<Rightarrow> None
      | Some d \<Rightarrow> if d < b then parse_nat_acc b (acc * b + d) cs else None)"

definition parse_digits :: "nat \<Rightarrow> string \<Rightarrow> nat option" where
  "parse_digits b s = (if s = [] then None else parse_nat_acc b 0 s)"

definition NonDecimalIntegerLiteral :: "string \<Rightarrow> nat option" where
  "NonDecimalIntegerLiteral s =
     (case s of
        c0 # c1 # ds \<Rightarrow>
          if c0 \<noteq> CHR ''0'' then None
          else if c1 = CHR ''x'' \<or> c1 = CHR ''X'' then parse_digits 16 ds
          else if c1 = CHR ''o'' \<or> c1 = CHR ''O'' then parse_digits 8 ds
          else if c1 = CHR ''b'' \<or> c1 = CHR ''B'' then parse_digits 2 ds
          else None
      | _ \<Rightarrow> None)"

text \<open>The digits before and after the point: their value as one integer, and the number of
  fraction digits.\<close>

definition parse_mantissa :: "string \<Rightarrow> (nat \<times> nat) option" where
  "parse_mantissa m =
     (let ip = takeWhile (\<lambda>c. c \<noteq> CHR ''.'') m;
          r = dropWhile (\<lambda>c. c \<noteq> CHR ''.'') m
      in if r = [] then map_option (\<lambda>n. (n, 0)) (parse_digits 10 ip)
         else if ip = [] \<and> tl r = [] then None
         else map_option (\<lambda>n. (n, length (tl r))) (parse_nat_acc 10 0 (ip @ tl r)))"

definition parse_exponent :: "string \<Rightarrow> int option" where
  "parse_exponent s =
     (case s of
        [] \<Rightarrow> None
      | c # cs \<Rightarrow>
          if c = CHR ''+'' then map_option int (parse_digits 10 cs)
          else if c = CHR ''-'' then map_option (\<lambda>n. - int n) (parse_digits 10 cs)
          else map_option int (parse_digits 10 s))"

definition pow10 :: "int \<Rightarrow> rat" where
  "pow10 k = (if 0 \<le> k then 10 ^ nat k else 1 / 10 ^ nat (- k))"

definition is_exp_char :: "char \<Rightarrow> bool" where
  "is_exp_char c = (c = CHR ''e'' \<or> c = CHR ''E'')"

definition StrUnsignedDecimalLiteral :: "string \<Rightarrow> rat option" where
  "StrUnsignedDecimalLiteral u =
     (let m = takeWhile (\<lambda>c. \<not> is_exp_char c) u;
          r = dropWhile (\<lambda>c. \<not> is_exp_char c) u
      in case parse_mantissa m of
           None \<Rightarrow> None
         | Some (n, fl) \<Rightarrow>
             if r = [] then Some (of_nat n * pow10 (- int fl))
             else (case parse_exponent (tl r) of
                     None \<Rightarrow> None
                   | Some e \<Rightarrow> Some (of_nat n * pow10 (e - int fl))))"

definition StrDecimalLiteral :: "string \<Rightarrow> jsnum" where
  "StrDecimalLiteral s =
     (let neg = (s \<noteq> [] \<and> hd s = CHR ''-'');
          u = (if s \<noteq> [] \<and> (hd s = CHR ''-'' \<or> hd s = CHR ''+'') then tl s else s)
      in if u = ''Infinity'' then (if neg then NegInf else PosInf)
         else (case StrUnsignedDecimalLiteral u of
                 None \<Rightarrow> NaN
               | Some r \<Rightarrow> Fin (if neg then - r else r)))"

definition Number :: "string \<Rightarrow> jsnum" where
  "Number s =
     (let t = trim s
      in if t = [] then Fin 0
         else (case NonDecimalIntegerLiteral t of
                 Some n \<Rightarrow> Fin (of_nat n)
               | None \<Rightarrow> StrDecimalLiteral t))"

section \<open>The view-state store\<close>

text \<open>
  \<open>Partial<MapState>\<close>: every field may be \<open>undefined\<close> (\<open>None\<close>).
  The hook embedded here is the one that reads both forms of the fragment and writes the
  compact one; an earlier variant of it in the repository reads and writes the slash form
  only and does not trim the cell id.
\<close>

record MapState =
  zoom :: "jsnum option"
  lat :: "jsnum option"
  lng :: "jsnum option"
  cellId :: "string option"

definition empty_state :: MapState where
  "empty_state = \<lparr>zoom = None, lat = None, lng = None, cellId = None\<rparr>"

text \<open>
  The address of the page: \<open>hash\<close> is what \<^verbatim>\<open>location.hash\<close> returns (empty, or the
  fragment after a \<open>#\<close>), \<open>searchParams\<close> the name-value pairs of the query string in order.
  Percent-encoding is not modelled: a pair that is set is the pair that is read back.
\<close>

record url =
  hash :: string
  searchParams :: "(string \<times> string) list"

definition set_hash :: "string \<Rightarrow> url \<Rightarrow> url" where
  "set_hash v u =
     u\<lparr>hash := (if v = [] \<or> v = ''#'' then [] else if hd v = CHR ''#'' then v else CHR ''#'' # v)\<rparr>"

definition searchParams_get :: "string \<Rightarrow> (string \<times> string) list \<Rightarrow> string option" where
  "searchParams_get name ps = map_of ps name"

definition searchParams_delete :: "string \<Rightarrow> (string \<times> string) list \<Rightarrow> (string \<times> string) list" where
  "searchParams_delete name ps = filter (\<lambda>kv. fst kv \<noteq> name) ps"

fun searchParams_set :: "string \<Rightarrow> string \<Rightarrow> (string \<times> string) list \<Rightarrow> (string \<times> string) list" where
  "searchParams_set name v [] = [(name, v)]"
| "searchParams_set name v (kv # ps) =
     (if fst kv = name then (name, v) # searchParams_delete name ps
      else kv # searchParams_set name v ps)"

text \<open>
  The first half of \<open>parseUrlState\<close>: the map position read from the fragment (the hash
  without its \<open>#\<close>). Nothing in it can throw, so the \<open>catch\<close> branch of the source is never
  taken and has no counterpart here.
\<close>

definition parse_hash :: "string \<Rightarrow> MapState \<Rightarrow> MapState" where
  "parse_hash h state =
     (if h = [] then state
      else if js_includes h ''/'' then
        (let parts = split (CHR ''/'') h
         in if length parts = 3 then
              (let zoom' = Number (parts ! 0);
                   lat' = Number (parts ! 1);
                   lng' = Number (parts ! 2)
               in if \<not> isNaN zoom' \<and> \<not> isNaN lat' \<and> \<not> isNaN lng'
                  then state\<lparr>zoom := Some zoom', lat := Some lat', lng := Some lng'\<rparr>
                  else state)
            else state)
      else if startsWith h ''map_'' then
        (let parts = split (CHR ''_'') (drop 4 h)
         in if length parts = 3 then
              (let zoom' = Number (parts ! 0);
                   lat' = js_divide (Number (parts ! 1)) 100000;
                   lng' = js_divide (Number (parts ! 2)) 100000
               in if \<not> isNaN zoom' \<and> \<not> isNaN lat' \<and> \<not> isNaN lng'
                  then state\<lparr>zoom := Some zoom', lat := Some lat', lng := Some lng'\<rparr>
                  else state)
            else state)
      else state)"

definition parseUrlState :: "url \<Rightarrow> MapState" where
  "parseUrlState loc =
     (let state = parse_hash (drop 1 (hash loc)) empty_state
      in case searchParams_get ''id'' (searchParams loc) of
           None \<Rightarrow> state
         | Some c \<Rightarrow> if c \<noteq> [] then state\<lparr>cellId := Some (trim c)\<rparr> else state)"

definition updateUrlState :: "url \<Rightarrow> MapState \<Rightarrow> url" where
  "updateUrlState loc newState =
     (let url1 =
        (case (zoom newState, lat newState, lng newState) of
           (Some z, Some la, Some lo) \<Rightarrow>
             (let zoom' = Math_round z;
                  lat' = Math_round (js_times la 100000);
                  lng' = Math_round (js_times lo 100000)
              in if \<not> isNaN zoom' \<and> \<not> isNaN lat' \<and> \<not> isNaN lng'
                 then set_hash (''#map_'' @ ToString zoom' @ ''_'' @ ToString lat' @ ''_'' @ ToString lng') loc
                 else loc)
         | _ \<Rightarrow> loc)
      in case cellId newState of
           None \<Rightarrow> url1
         | Some c \<Rightarrow>
             if c \<noteq> [] then url1\<lparr>searchParams := searchParams_set ''id'' c (searchParams url1)\<rparr>
             else url1\<lparr>searchParams := searchParams_delete ''id'' (searchParams url1)\<rparr>)"

section \<open>JSON values and the points\<close>

text \<open>
  A parsed JSON document. An object keeps its members in the order of the text; a name
  that occurs twice has the value of its last occurrence. A property that is missing reads
  as \<open>undefined\<close>, which is \<open>None\<close> below.
\<close>

datatype json =
    JNull
  | JBool bool
  | JNumber rat
  | JString string
  | JArray "json list"
  | JObject "(string \<times> json) list"

text \<open>What the loader and the search can throw.\<close>

datatype js_error = FailedToLoad | ReceivedHtml | SyntaxError | InvalidFormat | TypeError

text \<open>
  The interface \<open>SurveyPoint\<close> declares \<open>cell_id\<close> a string, but the loader stores the
  property of the record as it is, with no conversion: the field holds any JSON value, and
  the collection the search runs on is the one the loader returned.
\<close>

record SurveyPoint =
  point_id :: string
  point_lat :: rat
  point_lng :: rat
  cell_id :: json

section \<open>Loading the points\<close>

text \<open>\<^verbatim>\<open>v.name\<close> on a value that is neither \<open>null\<close> nor \<open>undefined\<close>, for the names the loader
  reads (none of them is a property of arrays, strings, numbers or booleans).\<close>

definition get_prop :: "string \<Rightarrow> json \<Rightarrow> json option" where
  "get_prop name v = (case v of JObject members \<Rightarrow> map_of (rev members) name | _ \<Rightarrow> None)"

text \<open>\<^verbatim>\<open>v?.name\<close>.\<close>

definition opt_prop :: "string \<Rightarrow> json option \<Rightarrow> json option" where
  "opt_prop name v = (case v of None \<Rightarrow> None | Some JNull \<Rightarrow> None | Some w \<Rightarrow> get_prop name w)"

text \<open>\<^verbatim>\<open>a ?? b\<close> for a value \<open>b\<close>: it is \<open>b\<close> when \<open>a\<close> is \<open>null\<close> or \<open>undefined\<close>.\<close>

definition nullish :: "json option \<Rightarrow> json \<Rightarrow> json" where
  "nullish a b = (case a of None \<Rightarrow> b | Some JNull \<Rightarrow> b | Some v \<Rightarrow> v)"

definition falsy :: "json option \<Rightarrow> bool" where
  "falsy v = (v = None \<or> v = Some JNull \<or> v = Some (JBool False) \<or> v = Some (JNumber 0)
               \<or> v = Some (JString []))"

definition nth_opt :: "'a list \<Rightarrow> nat \<Rightarrow> 'a option" where
  "nth_opt xs i = (if i < length xs then Some (xs ! i) else None)"

text \<open>
  \<^verbatim>\<open>const [lng, lat] = coords || []\<close>. An array gives its first two elements, a string its
  first two characters, anything falsy gives nothing; a number, \<open>true\<close> or an object cannot
  be iterated, and the destructuring throws a \<open>TypeError\<close>.
\<close>

definition destructure2 :: "json option \<Rightarrow> js_error + (json option \<times> json option)" where
  "destructure2 coords =
     (if falsy coords then Inr (None, None)
      else (case coords of
              Some (JArray xs) \<Rightarrow> Inr (nth_opt xs 0, nth_opt xs 1)
            | Some (JString s) \<Rightarrow>
                Inr (map_option (\<lambda>c. JString [c]) (nth_opt s 0),
                     map_option (\<lambda>c. JString [c]) (nth_opt s 1))
            | _ \<Rightarrow> Inl TypeError))"

text \<open>One record of the \<open>features\<close> array, at index \<open>i\<close>: the point it adds, if any.\<close>

definition load_feature :: "nat \<Rightarrow> json \<Rightarrow> js_error + SurveyPoint option" where
  "load_feature i f =
     (if opt_prop ''type'' (opt_prop ''geometry'' (Some f)) \<noteq> Some (JString ''Point'') then Inr None
      else (case destructure2 (opt_prop ''coordinates'' (opt_prop ''geometry'' (Some f))) of
              Inl e \<Rightarrow> Inl e
            | Inr (Some (JNumber lng'), Some (JNumber lat')) \<Rightarrow>
                (let properties = get_prop ''properties'' f;
                     cell = nullish (opt_prop ''cell_id'' properties)
                              (nullish (opt_prop ''name'' properties)
                                 (JString (''Point_'' @ digits_of i)))
                 in Inr (Some \<lparr>point_id = ''point_'' @ digits_of i, point_lat = lat',
                                point_lng = lng', cell_id = cell\<rparr>))
            | Inr _ \<Rightarrow> Inr None))"

fun load_features :: "nat \<Rightarrow> json list \<Rightarrow> js_error + SurveyPoint list" where
  "load_features i [] = Inr []"
| "load_features i (f # fs) =
     (case load_feature i f of
        Inl e \<Rightarrow> Inl e
      | Inr p \<Rightarrow>
          (case load_features (Suc i) fs of
             Inl e \<Rightarrow> Inl e
           | Inr ps \<Rightarrow> Inr ((case p of None \<Rightarrow> [] | Some pt \<Rightarrow> [pt]) @ ps)))"

text \<open>The loader from the parsed document on.\<close>

definition load_parsed :: "json \<Rightarrow> js_error + SurveyPoint list" where
  "load_parsed gj =
     (case opt_prop ''features'' (Some gj) of
        Some (JArray features) \<Rightarrow> load_features 0 features
      | _ \<Rightarrow> Inl InvalidFormat)"

text \<open>
  \<open>loadGeoJSONData\<close>: the response of the fetch has a status flag and a text; \<open>parse\<close> stands
  for \<^verbatim>\<open>JSON.parse\<close>, which gives no value on a text that is not JSON.
\<close>

record response =
  ok :: bool
  body :: string

definition loadGeoJSONData :: "(string \<Rightarrow> json option) \<Rightarrow> response \<Rightarrow> js_error + SurveyPoint list" where
  "loadGeoJSONData parse resp =
     (if \<not> ok resp then Inl FailedToLoad
      else if startsWith (trim (body resp)) ''<'' then Inl ReceivedHtml
      else (case parse (body resp) of
              None \<Rightarrow> Inl SyntaxError
            | Some gj \<Rightarrow> load_parsed gj))"

section \<open>The point index and the search\<close>

text \<open>
  The state behind the handle of the map component: the loaded points, whether the map
  widget and its library are there (\<^verbatim>\<open>mapRef.current && window.L\<close>), and the \<open>flyTo\<close>
  calls made so far (latitude, longitude, zoom). The widget itself is taken not to throw;
  the highlight that a timer adds and removes later is not modelled.
\<close>

record MapContainer =
  surveyPoints :: "SurveyPoint list"
  map_ready :: bool
  flyTo_calls :: "(rat \<times> rat \<times> nat) list"

text \<open>
  The lookup that opens \<open>searchAndFlyTo\<close>:
  \<^verbatim>\<open>surveyPoints.find((p) => p.cell_id.toLowerCase() === cellId.toLowerCase())\<close>.
  It visits the points in order and stops at the first match. \<open>toLowerCase\<close> is a method of
  strings only: on a cell id that is no string the call throws a \<open>TypeError\<close>.
\<close>

fun find_point :: "SurveyPoint list \<Rightarrow> string \<Rightarrow> js_error + SurveyPoint option" where
  "find_point [] q = Inr None"
| "find_point (p # ps) q =
     (case cell_id p of
        JString s \<Rightarrow> if toLowerCase s = toLowerCase q then Inr (Some p) else find_point ps q
      | _ \<Rightarrow> Inl TypeError)"

definition searchAndFlyTo :: "MapContainer \<Rightarrow> string \<Rightarrow> js_error + bool \<times> MapContainer" where
  "searchAndFlyTo mc q =
     (case find_point (surveyPoints mc) q of
        Inl e \<Rightarrow> Inl e
      | Inr (Some point) \<Rightarrow>
          if map_ready mc
          then Inr (True, mc\<lparr>flyTo_calls := flyTo_calls mc @ [(point_lat point, point_lng point, 16)]\<rparr>)
          else Inr (False, mc)
      | Inr None \<Rightarrow> Inr (False, mc))"

text \<open>
  The \<open>filter\<close> and the \<open>map\<close> of \<open>getSuggestions\<close> in one pass: the cell ids of the points
  whose cell id, in lower case, includes \<open>lower\<close>. The filter visits every point, so one cell
  id that is no string makes it throw.
\<close>

fun filter_cells :: "SurveyPoint list \<Rightarrow> string \<Rightarrow> js_error + string list" where
  "filter_cells [] lower = Inr []"
| "filter_cells (p # ps) lower =
     (case cell_id p of
        JString s \<Rightarrow>
          (case filter_cells ps lower of
             Inl e \<Rightarrow> Inl e
           | Inr cs \<Rightarrow> Inr (if js_includes (toLowerCase s) lower then s # cs else cs))
      | _ \<Rightarrow> Inl TypeError)"

text \<open>\<^verbatim>\<open>sort()\<close> without a comparator orders strings by their code units; on ASCII text
  that is the lexicographic order of the characters' codes.\<close>

definition getSuggestions :: "MapContainer \<Rightarrow> string \<Rightarrow> js_error + string list" where
  "getSuggestions mc query =
     (if trim query = [] then Inr []
      else (let lower = toLowerCase query
            in case filter_cells (surveyPoints mc) lower of
                 Inl e \<Rightarrow> Inl e
               | Inr cs \<Rightarrow> Inr (sort cs)))"

text \<open>The search box: the suggestions it stores and whether it shows them, for the typed
  value; \<open>getSugg\<close> is the function the page hands down. The handler catches nothing.\<close>

definition handleInputChange ::
    "(string \<Rightarrow> js_error + string list) \<Rightarrow> string \<Rightarrow> js_error + string list \<times> bool" where
  "handleInputChange getSugg v =
     (if trim v \<noteq> [] then
        (case getSugg (trim v) of
           Inl e \<Rightarrow> Inl e
         | Inr found \<Rightarrow> (let newSuggestions = take 5 found
                          in Inr (newSuggestions, newSuggestions \<noteq> [])))
      else Inr ([], False))"

text \<open>
  The page: the address bar, the handle of the map component (absent until the component
  is mounted), and the two pieces of search state. \<open>handleSearchById\<close> returns its result
  and the page after it. Its \<open>catch\<close> branch is taken when the lookup throws; \<open>finally\<close>
  resets \<open>isSearching\<close> on every path past the first guard.
\<close>

record Page =
  location :: url
  mapRef :: "MapContainer option"
  isSearching :: bool
  searchError :: "string option"

definition page_getSuggestions :: "Page \<Rightarrow> string \<Rightarrow> js_error + string list" where
  "page_getSuggestions pg query =
     (case mapRef pg of None \<Rightarrow> Inr [] | Some mc \<Rightarrow> getSuggestions mc query)"

definition not_found_message :: "string \<Rightarrow> string" where
  "not_found_message q = ''Cell ID '' @ [CHR 0x22] @ q @ [CHR 0x22] @ '' not found''"

definition handleSearchById :: "Page \<Rightarrow> string \<Rightarrow> bool \<times> Page" where
  "handleSearchById pg q =
     (case mapRef pg of
        None \<Rightarrow> (False, pg)
      | Some mc \<Rightarrow>
          (let pg1 = pg\<lparr>isSearching := True, searchError := None\<rparr>
           in case searchAndFlyTo mc (trim q) of
                Inl e \<Rightarrow> (False, pg1\<lparr>searchError := Some ''Search failed'', isSearching := False\<rparr>)
              | Inr r \<Rightarrow>
                  if \<not> fst r
                  then (False, pg1\<lparr>mapRef := Some (snd r),
                                    searchError := Some (not_found_message q),
                                    isSearching := False\<rparr>)
                  else (True, pg1\<lparr>mapRef := Some (snd r),
                                   location := updateUrlState (location pg1)
                                                 (empty_state\<lparr>cellId := Some (trim q)\<rparr>),
                                   isSearching := False\<rparr>)))"

section \<open>Notions used in the statements\<close>

definition is_digit :: "char \<Rightarrow> bool" where
  "is_digit c = (CHR ''0'' \<le> c \<and> c \<le> CHR ''9'')"

definition is_int_char :: "char \<Rightarrow> bool" where
  "is_int_char c = (is_digit c \<or> c = CHR ''-'')"

text \<open>A field holds a finite number no further than \<open>eps\<close> from \<open>x\<close>.\<close>

definition close_to :: "rat \<Rightarrow> rat \<Rightarrow> jsnum option \<Rightarrow> bool" where
  "close_to eps x v = (case v of Some (Fin y) \<Rightarrow> \<bar>y - x\<bar> \<le> eps | _ \<Rightarrow> False)"

text \<open>
  The fragments that carry no position: a slash form or a \<open>map_\<close> form without exactly
  three parts or with a part that \<open>Number\<close> turns into \<open>NaN\<close>, and every fragment of neither
  form (the empty one among them).
\<close>

definition malformed :: "string \<Rightarrow> bool" where
  "malformed h =
     (if js_includes h ''/'' then
        length (split (CHR ''/'') h) \<noteq> 3 \<or> list_ex (\<lambda>p. isNaN (Number p)) (split (CHR ''/'') h)
      else if startsWith h ''map_'' then
        length (split (CHR ''_'') (drop 4 h)) \<noteq> 3
        \<or> list_ex (\<lambda>p. isNaN (Number p)) (split (CHR ''_'') (drop 4 h))
      else True)"


text \<open>\<open>q\<close> occurs in \<open>s\<close>, letter case aside.\<close>

definition contains_ci :: "string \<Rightarrow> string \<Rightarrow> bool" where
  "contains_ci s q = (\<exists>pre post. toLowerCase s = pre @ toLowerCase q @ post)"

definition all_ws :: "string \<Rightarrow> bool" where
  "all_ws s = list_all is_ws s"

text \<open>A point matches a query when its cell id is a string equal to it, letter case aside.\<close>

definition matches :: "string \<Rightarrow> SurveyPoint \<Rightarrow> bool" where
  "matches q p = (case cell_id p of JString s \<Rightarrow> toLowerCase s = toLowerCase q | _ \<Rightarrow> False)"

definition is_string :: "json \<Rightarrow> bool" where
  "is_string v = (case v of JString s \<Rightarrow> True | _ \<Rightarrow> False)"

text \<open>The cell ids of a list of points that are strings.\<close>

definition string_cells :: "SurveyPoint list \<Rightarrow> string list" where
  "string_cells points = concat (map (\<lambda>p. case cell_id p of JString s \<Rightarrow> [s] | _ \<Rightarrow> []) points)"

text \<open>The dataset a page has loaded (none while the map component is not mounted), and
  whether its map widget is there.\<close>

definition dataset :: "Page \<Rightarrow> SurveyPoint list" where
  "dataset pg = (case mapRef pg of None \<Rightarrow> [] | Some mc \<Rightarrow> surveyPoints mc)"

definition widget_ready :: "Page \<Rightarrow> bool" where
  "widget_ready pg = (case mapRef pg of None \<Rightarrow> False | Some mc \<Rightarrow> map_ready mc)"

section \<open>Facts about digits, numbers and strings\<close>

lemma digit_char_cases:
  assumes "d < 10"
  shows "d = 0 \<or> d = 1 \<or> d = 2 \<or> d = 3 \<or> d = 4 \<or> d = 5 \<or> d = 6 \<or> d = 7 \<or> d = 8 \<or> d = (9::nat)"
  using assms by arith

lemma digit_of_digit_char: "d < 10 \<Longrightarrow> digit_of (digit_char d) = Some d"
  using digit_char_cases [of d]
  by (auto simp: digit_of_def digit_char_def less_eq_char_def)

lemma is_digit_digit_char: "d < 10 \<Longrightarrow> is_digit (digit_char d)"
  using digit_char_cases [of d]
  by (auto simp: is_digit_def digit_char_def less_eq_char_def)

lemma digits_of_all_digits: "\<forall>c \<in> set (digits_of n). is_digit c"
proof (induction n rule: digits_of.induct)
  case (1 n)
  show ?case
  proof (cases "n < 10")
    case True
    then show ?thesis by (simp add: digits_of.simps [of n] is_digit_digit_char)
  next
    case False
    with 1 show ?thesis
      by (auto simp: digits_of.simps [of n] is_digit_digit_char)
  qed
qed

lemma digits_of_nonempty: "digits_of n \<noteq> []"
  by (simp add: digits_of.simps [of n])

lemma parse_nat_acc_snoc:
  "d < 10 \<Longrightarrow> parse_nat_acc 10 acc (ds @ [digit_char d]) =
     map_option (\<lambda>v. v * 10 + d) (parse_nat_acc 10 acc ds)"
  by (induction ds arbitrary: acc) (auto simp: digit_of_digit_char split: option.splits)

lemma parse_nat_acc_digits_of: "parse_nat_acc 10 0 (digits_of n) = Some n"
proof (induction n rule: digits_of.induct)
  case (1 n)
  show ?case
  proof (cases "n < 10")
    case True
    then show ?thesis by (simp add: digits_of.simps [of n] digit_of_digit_char)
  next
    case False
    then have "parse_nat_acc 10 0 (digits_of (n div 10)) = Some (n div 10)"
      using 1 by simp
    with False show ?thesis
      by (simp add: digits_of.simps [of n] parse_nat_acc_snoc)
  qed
qed

lemma trim_no_ws: "\<forall>c \<in> set s. \<not> is_ws c \<Longrightarrow> trim s = s"
proof -
  assume a: "\<forall>c \<in> set s. \<not> is_ws c"
  then have "dropWhile is_ws s = s" by (cases s) auto
  moreover have "\<forall>c \<in> set (rev s). \<not> is_ws c" using a by simp
  then have "dropWhile is_ws (rev s) = rev s" by (cases "rev s") simp_all
  ultimately show ?thesis by (simp add: trim_def)
qed

lemma is_digit_props:
  "is_digit c \<Longrightarrow> \<not> is_ws c \<and> \<not> is_exp_char c \<and> c \<noteq> CHR ''.'' \<and> c \<noteq> CHR ''_'' \<and> c \<noteq> CHR ''/''
     \<and> c \<noteq> CHR ''x'' \<and> c \<noteq> CHR ''X'' \<and> c \<noteq> CHR ''o'' \<and> c \<noteq> CHR ''O'' \<and> c \<noteq> CHR ''b'' \<and> c \<noteq> CHR ''B''
     \<and> c \<noteq> CHR ''-'' \<and> c \<noteq> CHR ''+'' \<and> c \<noteq> CHR ''I''"
  by (auto simp: is_digit_def is_ws_def is_exp_char_def less_eq_char_def)

lemma StrUnsignedDecimalLiteral_digits_of:
  "StrUnsignedDecimalLiteral (digits_of n) = Some (of_nat n)"
proof -
  let ?s = "digits_of n"
  have d: "\<forall>c \<in> set ?s. is_digit c" by (rule digits_of_all_digits)
  have e: "takeWhile (\<lambda>c. \<not> is_exp_char c) ?s = ?s" "dropWhile (\<lambda>c. \<not> is_exp_char c) ?s = []"
    using d is_digit_props by (auto simp: takeWhile_eq_all_conv)
  have p: "takeWhile (\<lambda>c. c \<noteq> CHR ''.'') ?s = ?s" "dropWhile (\<lambda>c. c \<noteq> CHR ''.'') ?s = []"
    using d is_digit_props by (auto simp: takeWhile_eq_all_conv)
  have m: "parse_mantissa ?s = Some (n, 0)"
    by (simp add: parse_mantissa_def p parse_digits_def digits_of_nonempty parse_nat_acc_digits_of)
  show ?thesis
    by (simp add: StrUnsignedDecimalLiteral_def e m pow10_def)
qed

lemma digits_of_not_Infinity: "digits_of n \<noteq> ''Infinity''"
proof
  assume "digits_of n = ''Infinity''"
  then have "CHR ''I'' \<in> set (digits_of n)" by simp
  with digits_of_all_digits is_digit_props show False by blast
qed

lemma hd_digits_of: "is_digit (hd (digits_of n))"
  using digits_of_all_digits [of n] digits_of_nonempty [of n] by (cases "digits_of n") auto

lemma StrDecimalLiteral_int_toString: "StrDecimalLiteral (int_toString n) = Fin (of_int n)"
proof (cases "n < 0")
  case True
  then show ?thesis
    by (simp add: StrDecimalLiteral_def int_toString_def digits_of_not_Infinity
        StrUnsignedDecimalLiteral_digits_of)
next
  case False
  have "hd (digits_of (nat n)) \<noteq> CHR ''-''" "hd (digits_of (nat n)) \<noteq> CHR ''+''"
    using hd_digits_of [of "nat n"] is_digit_props by blast+
  with False show ?thesis
    by (simp add: StrDecimalLiteral_def int_toString_def digits_of_not_Infinity
        StrUnsignedDecimalLiteral_digits_of digits_of_nonempty)
qed

lemma int_toString_chars: "\<forall>c \<in> set (int_toString n). is_int_char c"
  using digits_of_all_digits by (auto simp: int_toString_def is_int_char_def)

lemma int_toString_nonempty: "int_toString n \<noteq> []"
  by (simp add: int_toString_def digits_of_nonempty)

lemma is_int_char_props:
  "is_int_char c \<Longrightarrow> \<not> is_ws c \<and> c \<noteq> CHR ''_'' \<and> c \<noteq> CHR ''/''
     \<and> c \<noteq> CHR ''x'' \<and> c \<noteq> CHR ''X'' \<and> c \<noteq> CHR ''o'' \<and> c \<noteq> CHR ''O'' \<and> c \<noteq> CHR ''b'' \<and> c \<noteq> CHR ''B''"
proof -
  assume "is_int_char c"
  then consider "is_digit c" | "c = CHR ''-''" by (auto simp: is_int_char_def)
  then show ?thesis
  proof cases
    case 1
    from is_digit_props [OF this] show ?thesis by simp
  next
    case 2
    then show ?thesis by (simp add: is_ws_def)
  qed
qed

lemma NonDecimalIntegerLiteral_int_chars:
  "\<forall>c \<in> set s. is_int_char c \<Longrightarrow> NonDecimalIntegerLiteral s = None"
proof (cases s)
  case Nil
  then show ?thesis by (simp add: NonDecimalIntegerLiteral_def)
next
  case (Cons c0 t)
  assume a: "\<forall>c \<in> set s. is_int_char c"
  show ?thesis
  proof (cases t)
    case Nil
    with Cons show ?thesis by (simp add: NonDecimalIntegerLiteral_def)
  next
    case (Cons c1 ds)
    with a \<open>s = c0 # t\<close> have "is_int_char c1" by simp
    from is_int_char_props [OF this] Cons \<open>s = c0 # t\<close> show ?thesis
      by (simp add: NonDecimalIntegerLiteral_def)
  qed
qed

lemma Number_int_toString: "Number (int_toString n) = Fin (of_int n)"
proof -
  have "trim (int_toString n) = int_toString n"
  proof (rule trim_no_ws)
    show "\<forall>c \<in> set (int_toString n). \<not> is_ws c"
      using int_toString_chars [of n] is_int_char_props by blast
  qed
  then show ?thesis
    by (simp add: Number_def int_toString_nonempty NonDecimalIntegerLiteral_int_chars
        int_toString_chars StrDecimalLiteral_int_toString)
qed

lemma split_nonempty: "split sep s \<noteq> []"
  by (induction s) (auto split: list.splits)

lemma split_no_sep: "sep \<notin> set s \<Longrightarrow> split sep s = [s]"
  by (induction s) auto

lemma split_append: "sep \<notin> set a \<Longrightarrow> split sep (a @ sep # r) = a # split sep r"
  by (induction a) auto

lemma length_split: "length (split sep s) = Suc (length (filter (\<lambda>c. c = sep) s))"
  by (induction s) (auto split: list.splits simp: split_nonempty)

lemma split_parts_no_sep: "p \<in> set (split sep s) \<Longrightarrow> sep \<notin> set p"
  by (induction s arbitrary: p) (auto split: if_splits list.splits)

lemma js_includes_single: "js_includes h [c] \<longleftrightarrow> c \<in> set h"
  by (induction h) (auto simp: startsWith_def)

lemma int_toString_no: "CHR ''_'' \<notin> set (int_toString n)" "CHR ''/'' \<notin> set (int_toString n)"
  using int_toString_chars [of n] is_int_char_props by blast+

lemma parse_hash_compact:
  "parse_hash (''map_'' @ int_toString a @ ''_'' @ int_toString b @ ''_'' @ int_toString c) state =
     state\<lparr>zoom := Some (Fin (of_int a)), lat := Some (Fin (of_int b / 100000)),
           lng := Some (Fin (of_int c / 100000))\<rparr>"
proof -
  let ?h = "''map_'' @ int_toString a @ ''_'' @ int_toString b @ ''_'' @ int_toString c"
  have no_slash: "\<not> js_includes ?h ''/''"
    by (simp add: js_includes_single int_toString_no)
  have sw: "startsWith ?h ''map_''" by (simp add: startsWith_def)
  have "drop 4 ?h = int_toString a @ CHR ''_'' # int_toString b @ CHR ''_'' # int_toString c"
    by simp
  then have parts: "split (CHR ''_'') (drop 4 ?h) = [int_toString a, int_toString b, int_toString c]"
    by (simp add: split_append split_no_sep int_toString_no)
  have ne: "?h \<noteq> []" by simp
  show ?thesis
    unfolding parse_hash_def
    by (simp only: ne no_slash sw parts if_True if_False Let_def) (simp add: Number_int_toString)
qed

lemma round_error:
  fixes x :: rat
  shows "\<bar>of_int \<lfloor>x * 100000 + 1 / 2\<rfloor> / 100000 - x\<bar> \<le> 1 / 200000"
proof -
  define n :: rat where "n = of_int \<lfloor>x * 100000 + 1 / 2\<rfloor>"
  define m :: rat where "m = n / 100000"
  have n: "n = m * 100000" by (simp add: m_def)
  have "n \<le> x * 100000 + 1 / 2" "x * 100000 + 1 / 2 < n + 1"
    unfolding n_def by linarith+
  then have "\<bar>m - x\<bar> \<le> 1 / 200000" unfolding n by linarith
  then show ?thesis by (simp add: m_def n_def)
qed

lemma trim_empty_iff: "trim s = [] \<longleftrightarrow> (\<forall>c \<in> set s. is_ws c)"
proof -
  have "trim s = [] \<longleftrightarrow> dropWhile is_ws (rev (dropWhile is_ws s)) = []"
    by (simp add: trim_def)
  also have "\<dots> \<longleftrightarrow> (\<forall>c \<in> set (dropWhile is_ws s). is_ws c)"
    by (simp add: dropWhile_eq_Nil_conv)
  also have "\<dots> \<longleftrightarrow> (\<forall>c \<in> set s. is_ws c)"
  proof
    assume a: "\<forall>c \<in> set (dropWhile is_ws s). is_ws c"
    show "\<forall>c \<in> set s. is_ws c"
    proof (cases "dropWhile is_ws s")
      case Nil
      then show ?thesis by (simp add: dropWhile_eq_Nil_conv)
    next
      case (Cons x xs)
      then have "\<not> is_ws x" using hd_dropWhile [of is_ws s] by simp
      moreover have "is_ws x" using a Cons by simp
      ultimately show ?thesis by simp
    qed
  next
    assume "\<forall>c \<in> set s. is_ws c"
    then show "\<forall>c \<in> set (dropWhile is_ws s). is_ws c"
      using set_dropWhileD by fastforce
  qed
  finally show ?thesis .
qed

lemma Number_ws: "\<forall>c \<in> set s. is_ws c \<Longrightarrow> Number s = Fin 0"
  by (simp add: Number_def trim_empty_iff)

lemma parse_hash_legacy:
  assumes "CHR ''/'' \<notin> set a" "CHR ''/'' \<notin> set b" "CHR ''/'' \<notin> set c"
  shows "parse_hash (a @ ''/'' @ b @ ''/'' @ c) state =
     (if \<not> isNaN (Number a) \<and> \<not> isNaN (Number b) \<and> \<not> isNaN (Number c)
      then state\<lparr>zoom := Some (Number a), lat := Some (Number b), lng := Some (Number c)\<rparr>
      else state)"
proof -
  let ?h = "a @ ''/'' @ b @ ''/'' @ c"
  have inc: "js_includes ?h ''/''" by (simp add: js_includes_single)
  have ne: "?h \<noteq> []" by simp
  have "?h = a @ CHR ''/'' # b @ CHR ''/'' # c" by simp
  then have parts: "split (CHR ''/'') ?h = [a, b, c]"
    using assms by (simp add: split_append split_no_sep)
  show ?thesis
    unfolding parse_hash_def
    by (simp only: ne inc parts if_True if_False Let_def) simp
qed

lemma parse_hash_cellId: "cellId (parse_hash h state) = cellId state"
  by (simp add: parse_hash_def Let_def)

lemma parseUrlState_position:
  "zoom (parseUrlState loc) = zoom (parse_hash (drop 1 (hash loc)) empty_state)"
  "lat (parseUrlState loc) = lat (parse_hash (drop 1 (hash loc)) empty_state)"
  "lng (parseUrlState loc) = lng (parse_hash (drop 1 (hash loc)) empty_state)"
  by (simp_all add: parseUrlState_def Let_def split: option.splits)

lemma hash_set_hash: "hash (set_hash (CHR ''#'' # c # cs) u) = CHR ''#'' # c # cs"
  by (simp add: set_hash_def)

lemma hash_update_finite:
  assumes "zoom st = Some (Fin z)" "lat st = Some (Fin la)" "lng st = Some (Fin lo)"
  shows "hash (updateUrlState loc st) =
     ''#map_'' @ int_toString \<lfloor>z + 1 / 2\<rfloor> @ ''_'' @ int_toString \<lfloor>la * 100000 + 1 / 2\<rfloor>
       @ ''_'' @ int_toString \<lfloor>lo * 100000 + 1 / 2\<rfloor>"
  using assms by (simp add: updateUrlState_def Let_def set_hash_def split: option.splits)

text \<open>Rewrite rules that evaluate the functions above on literals.\<close>

lemmas number_eval = Number_def trim_def is_ws_def NonDecimalIntegerLiteral_def
  StrDecimalLiteral_def StrUnsignedDecimalLiteral_def is_exp_char_def parse_mantissa_def
  parse_exponent_def parse_digits_def digit_of_def less_eq_char_def pow10_def Let_def

lemma floor_rat_numeral: "\<lfloor>numeral a / numeral b :: rat\<rfloor> = numeral a div numeral b"
  using floor_divide_of_int_eq [of "numeral a" "numeral b", where ?'a = rat] by simp

lemma floor_rat_neg_numeral: "\<lfloor>- (numeral a / numeral b) :: rat\<rfloor> = - numeral a div numeral b"
  using floor_divide_of_int_eq [of "- numeral a" "numeral b", where ?'a = rat] by simp

lemmas toString_eval = int_toString_def digits_of.simps digit_char_def char_of_eq_iff
  floor_rat_numeral floor_rat_neg_numeral

lemmas string_eval = toLowerCase_def toLowerCase_char_def less_eq_char_def less_char_def char_of_eq_iff
  startsWith_def trim_def is_ws_def

lemmas search_eval = handleSearchById_def searchAndFlyTo_def updateUrlState_def
  parseUrlState_def parse_hash_def empty_state_def searchParams_get_def searchParams_delete_def
  not_found_message_def Let_def

section \<open>The coordinate codec\<close>

text \<open>
  Claim C1. Writing a position into the address and reading it back gives the zoom
  exactly and the latitude and longitude each within \<open>10\<^sup>-\<^sup>5\<close> degrees, for every integer
  zoom from 0 to 22, every latitude from -90 to 90 and every longitude from -180 to 180.
  (The arithmetic is exact here, and the distance is at most half of \<open>10\<^sup>-\<^sup>5\<close>.)
\<close>

theorem codec_round_trip:
  fixes z :: int and la lo :: rat
  assumes "0 \<le> z" "z \<le> 22" "- 90 \<le> la" "la \<le> 90" "- 180 \<le> lo" "lo \<le> 180"
    and "zoom st = Some (Fin (of_int z))" "lat st = Some (Fin la)" "lng st = Some (Fin lo)"
  shows "zoom (parseUrlState (updateUrlState loc st)) = Some (Fin (of_int z))
     \<and> close_to (1 / 100000) la (lat (parseUrlState (updateUrlState loc st)))
     \<and> close_to (1 / 100000) lo (lng (parseUrlState (updateUrlState loc st)))"
proof -
  let ?a = "\<lfloor>la * 100000 + 1 / 2\<rfloor>" and ?b = "\<lfloor>lo * 100000 + 1 / 2\<rfloor>"
  have fl: "\<lfloor>rat_of_int z + 1 / 2\<rfloor> = z" by linarith
  have h: "hash (updateUrlState loc st) =
      CHR ''#'' # (''map_'' @ int_toString z @ ''_'' @ int_toString ?a @ ''_'' @ int_toString ?b)"
    using hash_update_finite [OF assms(7-9), of loc] by (simp add: fl)
  have p: "parse_hash (drop 1 (hash (updateUrlState loc st))) empty_state =
      empty_state\<lparr>zoom := Some (Fin (of_int z)), lat := Some (Fin (of_int ?a / 100000)),
                  lng := Some (Fin (of_int ?b / 100000))\<rparr>"
    unfolding h using parse_hash_compact [of z ?a ?b empty_state] by simp
  have "\<bar>of_int ?a / 100000 - la\<bar> \<le> 1 / 100000" "\<bar>of_int ?b / 100000 - lo\<bar> \<le> 1 / 100000"
    using round_error [of la] round_error [of lo] by linarith+
  then show ?thesis
    unfolding parseUrlState_position p close_to_def by simp
qed

theorem codec_round_trip_witness:
  "(0::int) \<le> 16 \<and> (16::int) \<le> 22 \<and> (- 90::rat) \<le> 50891 / 1250 \<and> (50891 / 1250 :: rat) \<le> 90
   \<and> (- 180::rat) \<le> - (37003 / 500) \<and> (- (37003 / 500) :: rat) \<le> 180
   \<and> zoom (parseUrlState (updateUrlState \<lparr>hash = ''#15/1/2'', searchParams = []\<rparr>
         \<lparr>zoom = Some (Fin 16), lat = Some (Fin (50891 / 1250)),
          lng = Some (Fin (- (37003 / 500))), cellId = None\<rparr>)) = Some (Fin 16)
   \<and> close_to (1 / 100000) (50891 / 1250)
        (lat (parseUrlState (updateUrlState \<lparr>hash = ''#15/1/2'', searchParams = []\<rparr>
         \<lparr>zoom = Some (Fin 16), lat = Some (Fin (50891 / 1250)),
          lng = Some (Fin (- (37003 / 500))), cellId = None\<rparr>)))
   \<and> close_to (1 / 100000) (- (37003 / 500))
        (lng (parseUrlState (updateUrlState \<lparr>hash = ''#15/1/2'', searchParams = []\<rparr>
         \<lparr>zoom = Some (Fin 16), lat = Some (Fin (50891 / 1250)),
          lng = Some (Fin (- (37003 / 500))), cellId = None\<rparr>)))"
  using codec_round_trip [of 16 "50891 / 1250" "- (37003 / 500)"
      "\<lparr>zoom = Some (Fin 16), lat = Some (Fin (50891 / 1250)),
        lng = Some (Fin (- (37003 / 500))), cellId = None\<rparr>"
      "\<lparr>hash = ''#15/1/2'', searchParams = []\<rparr>"]
  by simp

text \<open>
  The same bound with rounding: when the product and the quotient are each rounded with a
  relative error of at most \<open>2\<^sup>-\<^sup>5\<^sup>3\<close>, as IEEE doubles round, a coordinate of absolute value
  up to 180 still comes back within \<open>10\<^sup>-\<^sup>5\<close>.
\<close>

lemma round_trip_with_rounding:
  fixes fl :: "rat \<Rightarrow> rat" and la :: rat
  assumes fl: "\<And>x. \<bar>fl x - x\<bar> \<le> \<bar>x\<bar> / 2 ^ 53" and la: "\<bar>la\<bar> \<le> 180"
  shows "\<bar>fl (of_int \<lfloor>fl (la * 100000) + 1 / 2\<rfloor> / 100000) - la\<bar> \<le> 1 / 100000"
proof -
  define m where "m = fl (la * 100000)"
  define n :: rat where "n = of_int \<lfloor>m + 1 / 2\<rfloor>"
  define r where "r = n / 100000"
  have p: "(2::rat) ^ 53 = 9007199254740992" by simp
  have "\<bar>la * 100000\<bar> \<le> 18000000" using la by (simp add: abs_mult)
  then have "\<bar>la * 100000\<bar> / 2 ^ 53 \<le> 18000000 / 2 ^ 53"
    by (simp add: divide_right_mono)
  with fl [of "la * 100000"] have m: "\<bar>m - la * 100000\<bar> \<le> 18000000 / 9007199254740992"
    unfolding m_def p by linarith
  have "n \<le> m + 1 / 2" "m + 1 / 2 < n + 1" unfolding n_def by linarith+
  then have n: "\<bar>n - m\<bar> \<le> 1 / 2" by linarith
  have nr: "n = r * 100000" by (simp add: r_def)
  have r1: "\<bar>r - la\<bar> \<le> 6 / 1000000"
    using m n unfolding nr by linarith
  then have "\<bar>r\<bar> \<le> 181" using la by linarith
  then have "\<bar>r\<bar> / 2 ^ 53 \<le> 181 / 2 ^ 53" by (simp add: divide_right_mono)
  with fl [of r] have "\<bar>fl r - r\<bar> \<le> 181 / 9007199254740992" unfolding p by linarith
  with r1 have "\<bar>fl r - la\<bar> \<le> 1 / 100000" by linarith
  then show ?thesis by (simp add: r_def n_def m_def)
qed

text \<open>The two fragments of the interface description decode to the same position.\<close>

lemma legacy_example:
  "parse_hash ''15/40.71280/-74.00600'' empty_state =
     \<lparr>zoom = Some (Fin 15), lat = Some (Fin (50891 / 1250)), lng = Some (Fin (- (37003 / 500))),
      cellId = None\<rparr>"
  by (simp add: parse_hash_def startsWith_def empty_state_def number_eval)

lemma compact_example:
  "parse_hash ''map_16_4071280_-7400600'' empty_state =
     \<lparr>zoom = Some (Fin 16), lat = Some (Fin (50891 / 1250)), lng = Some (Fin (- (37003 / 500))),
      cellId = None\<rparr>"
  by (simp add: parse_hash_def startsWith_def empty_state_def number_eval)

lemma slash_not_ws: "\<not> is_ws (CHR ''/'')"
  by (simp add: is_ws_def)

lemma all_ws_no_slash: "all_ws s \<Longrightarrow> CHR ''/'' \<notin> set s"
proof
  assume "all_ws s" "CHR ''/'' \<in> set s"
  then have "is_ws (CHR ''/'')" unfolding all_ws_def list_all_iff by (rule bspec)
  with slash_not_ws show False by simp
qed

text \<open>
  Claim C10. In the slash form an empty or blank part is not rejected: \<open>Number\<close> turns it
  into 0, which is not \<open>NaN\<close>. So three blank parts, the fragment \<open>//\<close> among them, decode to
  zoom 0, latitude 0 and longitude 0, not to the empty state.
\<close>

theorem legacy_blank_parts_are_zero:
  assumes "all_ws a" "all_ws b" "all_ws c"
  shows "Number a = Fin 0 \<and> Number b = Fin 0 \<and> Number c = Fin 0
     \<and> parse_hash (a @ ''/'' @ b @ ''/'' @ c) empty_state =
         \<lparr>zoom = Some (Fin 0), lat = Some (Fin 0), lng = Some (Fin 0), cellId = None\<rparr>"
proof -
  have n: "Number a = Fin 0" "Number b = Fin 0" "Number c = Fin 0"
    using assms by (simp_all add: all_ws_def list_all_iff Number_ws)
  have s: "CHR ''/'' \<notin> set a" "CHR ''/'' \<notin> set b" "CHR ''/'' \<notin> set c"
    using assms by (simp_all add: all_ws_no_slash)
  have "parse_hash (a @ ''/'' @ b @ ''/'' @ c) empty_state =
      empty_state\<lparr>zoom := Some (Fin 0), lat := Some (Fin 0), lng := Some (Fin 0)\<rparr>"
    unfolding parse_hash_legacy [OF s] n by simp
  with n show ?thesis by (simp add: empty_state_def)
qed

theorem legacy_blank_parts_are_zero_witness:
  "all_ws [] \<and> Number [] = Fin 0
   \<and> parse_hash ''//'' empty_state =
       \<lparr>zoom = Some (Fin 0), lat = Some (Fin 0), lng = Some (Fin 0), cellId = None\<rparr>"
  using legacy_blank_parts_are_zero [of "[]" "[]" "[]"]
  by (simp add: all_ws_def)

lemma length_3_cases: "length xs = 3 \<Longrightarrow> \<exists>a b c. xs = [a, b, c]"
  by (cases xs; cases "tl xs"; cases "tl (tl xs)") auto

lemma isNaN_js_divide: "isNaN (js_divide x k) = isNaN x"
  by (cases x) simp_all

lemma parse_hash_empty_fragment: "parse_hash [] state = state"
  by (simp add: parse_hash_def)

lemma malformed_empty: "malformed []"
  by (simp add: malformed_def startsWith_def)

text \<open>
  Claim C2, as amended. Decoding a fragment is a total function (no step of it can throw)
  and sets the three position fields together or not at all: the result is the empty state
  for a fragment with the wrong number of parts in either form, with a part that \<open>Number\<close>
  turns into \<open>NaN\<close>, or of neither form; for every other fragment all three fields are
  set, to numbers that are not \<open>NaN\<close>.
\<close>

theorem decode_all_or_nothing:
  "(malformed h \<longrightarrow> parse_hash h empty_state = empty_state)
   \<and> (\<not> malformed h \<longrightarrow>
        (\<exists>z la lo. \<not> isNaN z \<and> \<not> isNaN la \<and> \<not> isNaN lo
           \<and> parse_hash h empty_state = \<lparr>zoom = Some z, lat = Some la, lng = Some lo, cellId = None\<rparr>))"
proof (cases "h = []")
  case True
  then show ?thesis by (simp add: parse_hash_empty_fragment malformed_empty)
next
  case ne: False
  show ?thesis
  proof (cases "js_includes h ''/''")
    case inc: True
    show ?thesis
    proof (cases "length (split (CHR ''/'') h) = 3")
      case True
      then obtain a b c where p: "split (CHR ''/'') h = [a, b, c]"
        using length_3_cases by blast
      show ?thesis
        by (simp add: parse_hash_def malformed_def ne inc p empty_state_def)
    next
      case False
      then show ?thesis by (simp add: parse_hash_def malformed_def ne inc)
    qed
  next
    case ninc: False
    show ?thesis
    proof (cases "startsWith h ''map_''")
      case sw: True
      show ?thesis
      proof (cases "length (split (CHR ''_'') (drop 4 h)) = 3")
        case True
        then obtain a b c where p: "split (CHR ''_'') (drop 4 h) = [a, b, c]"
          using length_3_cases by blast
        show ?thesis
          by (simp add: parse_hash_def malformed_def ne ninc sw p empty_state_def isNaN_js_divide)
      next
        case False
        then show ?thesis by (simp add: parse_hash_def malformed_def ne ninc sw)
      qed
    next
      case False
      then show ?thesis by (simp add: parse_hash_def malformed_def ne ninc)
    qed
  qed
qed

theorem decode_all_or_nothing_witness:
  "malformed ''map_1_2'' \<and> parse_hash ''map_1_2'' empty_state = empty_state
   \<and> malformed ''1/2'' \<and> parse_hash ''1/2'' empty_state = empty_state
   \<and> malformed ''garbage'' \<and> parse_hash ''garbage'' empty_state = empty_state
   \<and> malformed ''1/x/2'' \<and> parse_hash ''1/x/2'' empty_state = empty_state
   \<and> \<not> malformed ''map_1_2_3''
   \<and> parse_hash ''map_1_2_3'' empty_state =
        \<lparr>zoom = Some (Fin 1), lat = Some (Fin (1 / 50000)), lng = Some (Fin (3 / 100000)),
         cellId = None\<rparr>"
proof -
  have m: "malformed ''map_1_2''" "malformed ''1/2''" "malformed ''garbage''" "malformed ''1/x/2''"
    by (simp_all add: malformed_def startsWith_def number_eval)
  have n: "\<not> malformed ''map_1_2_3''"
    by (simp add: malformed_def startsWith_def number_eval)
  have v: "parse_hash ''map_1_2_3'' empty_state =
        \<lparr>zoom = Some (Fin 1), lat = Some (Fin (1 / 50000)), lng = Some (Fin (3 / 100000)),
         cellId = None\<rparr>"
    by (simp add: parse_hash_def startsWith_def empty_state_def number_eval)
  show ?thesis
    using m n v decode_all_or_nothing [of "''map_1_2''"] decode_all_or_nothing [of "''1/2''"]
      decode_all_or_nothing [of "''garbage''"] decode_all_or_nothing [of "''1/x/2''"]
    by simp
qed

text \<open>
  The claim as first stated asks for an empty result when a part of the slash form is not
  a finite number. The check of the code is \<open>isNaN\<close>: the part \<open>Infinity\<close> is a number that is
  not finite, and it is accepted.
\<close>

theorem decode_infinite_part_counterexample:
  "Number ''Infinity'' = PosInf
   \<and> parse_hash ''Infinity/1/2'' empty_state =
        \<lparr>zoom = Some PosInf, lat = Some (Fin 1), lng = Some (Fin 2), cellId = None\<rparr>
   \<and> parse_hash ''Infinity/1/2'' empty_state \<noteq> empty_state"
  by (simp add: parse_hash_def startsWith_def empty_state_def number_eval)






lemma Math_round_integral: "Math_round x = Fin r \<Longrightarrow> of_int \<lfloor>r\<rfloor> = r"
  by (cases x) auto








section \<open>Strings, the query string and the cell id\<close>

lemma startsWith_iff: "startsWith s p \<longleftrightarrow> (\<exists>post. s = p @ post)"
proof
  assume "startsWith s p"
  then have "s = p @ drop (length p) s"
    by (metis append_take_drop_id startsWith_def)
  then show "\<exists>post. s = p @ post" ..
next
  assume "\<exists>post. s = p @ post"
  then show "startsWith s p" by (auto simp: startsWith_def)
qed

lemma js_includes_iff: "js_includes s t \<longleftrightarrow> (\<exists>pre post. s = pre @ t @ post)"
proof (induction s)
  case Nil
  show ?case by auto
next
  case (Cons c cs)
  show ?case
  proof
    assume "js_includes (c # cs) t"
    then consider "startsWith (c # cs) t" | "js_includes cs t" by auto
    then show "\<exists>pre post. c # cs = pre @ t @ post"
    proof cases
      case 1
      then obtain post where "c # cs = t @ post" unfolding startsWith_iff ..
      then have "c # cs = [] @ t @ post" by simp
      then show ?thesis by blast
    next
      case 2
      then obtain pre post where "cs = pre @ t @ post" using Cons.IH by blast
      then have "c # cs = (c # pre) @ t @ post" by simp
      then show ?thesis by blast
    qed
  next
    assume "\<exists>pre post. c # cs = pre @ t @ post"
    then obtain pre post where e: "c # cs = pre @ t @ post" by blast
    show "js_includes (c # cs) t"
    proof (cases pre)
      case Nil
      with e have "startsWith (c # cs) t" unfolding startsWith_iff by auto
      then show ?thesis by simp
    next
      case (Cons d pre')
      with e have "cs = pre' @ t @ post" by simp
      then have "js_includes cs t" using Cons.IH by blast
      then show ?thesis by simp
    qed
  qed
qed

lemma js_includes_contains_ci:
  "js_includes (toLowerCase s) (toLowerCase q) \<longleftrightarrow> contains_ci s q"
  by (simp add: js_includes_iff contains_ci_def)

lemma trim_Nil: "trim [] = []"
  by (simp add: trim_def)

lemma searchParams_get_set: "searchParams_get name (searchParams_set name v ps) = Some v"
  by (induction ps) (auto simp: searchParams_get_def)

lemma searchParams_get_delete: "searchParams_get name (searchParams_delete name ps) = None"
  by (induction ps) (auto simp: searchParams_get_def searchParams_delete_def)

lemma last_dropWhile: "dropWhile P xs \<noteq> [] \<Longrightarrow> last (dropWhile P xs) = last xs"
  by (induction xs) (auto split: if_splits)

lemma dropWhile_hd: "xs \<noteq> [] \<Longrightarrow> \<not> P (hd xs) \<Longrightarrow> dropWhile P xs = xs"
  by (cases xs) simp_all

lemma trim_ends:
  assumes "trim s \<noteq> []"
  shows "\<not> is_ws (hd (trim s))" "\<not> is_ws (last (trim s))"
proof -
  let ?u = "dropWhile is_ws s"
  let ?w = "dropWhile is_ws (rev ?u)"
  have w: "?w \<noteq> []" using assms by (simp add: trim_def)
  have u: "?u \<noteq> []"
  proof
    assume e: "?u = []"
    have "?w = []" unfolding e by simp
    with w show False by (rule notE)
  qed
  have "hd (trim s) = last ?w" using w by (simp add: trim_def hd_rev)
  also have "\<dots> = last (rev ?u)" using w by (rule last_dropWhile)
  also have "\<dots> = hd ?u" using u by (simp add: last_rev)
  finally show "\<not> is_ws (hd (trim s))" using hd_dropWhile [OF u] by simp
  have "last (trim s) = hd ?w" using w by (simp add: trim_def last_rev)
  then show "\<not> is_ws (last (trim s))" using hd_dropWhile [OF w] by simp
qed

lemma trim_trim: "trim (trim s) = trim s"
proof (cases "trim s = []")
  case True
  then show ?thesis by (simp add: trim_Nil)
next
  case False
  let ?t = "trim s"
  have a: "dropWhile is_ws ?t = ?t"
    using False trim_ends(1) [OF False] by (rule dropWhile_hd)
  have r: "rev ?t \<noteq> []" using False by simp
  have "hd (rev ?t) = last ?t" using False by (simp add: hd_rev)
  then have "\<not> is_ws (hd (rev ?t))" using trim_ends(2) [OF False] by simp
  with r have b: "dropWhile is_ws (rev ?t) = rev ?t" by (rule dropWhile_hd)
  have "trim ?t = rev (dropWhile is_ws (rev (dropWhile is_ws ?t)))" by (simp add: trim_def)
  also have "\<dots> = ?t" unfolding a b by simp
  finally show ?thesis .
qed

lemma parseUrlState_cellId:
  "cellId (parseUrlState loc) =
     (case searchParams_get ''id'' (searchParams loc) of
        None \<Rightarrow> None
      | Some v \<Rightarrow> if v = [] then None else Some (trim v))"
  by (simp add: parseUrlState_def Let_def parse_hash_cellId empty_state_def split: option.splits)

lemma updateUrlState_cellId_only:
  "zoom st = None \<Longrightarrow> cellId st = Some c \<Longrightarrow> c \<noteq> [] \<Longrightarrow>
     updateUrlState loc st = loc\<lparr>searchParams := searchParams_set ''id'' c (searchParams loc)\<rparr>"
  by (simp add: updateUrlState_def)

text \<open>
  Claim C8, as amended. The cell id read from the query string is absent when there is no
  \<open>id\<close> parameter or when the value of the first one is empty; otherwise it is that value
  with the white space at both ends removed (the empty string, for a value of white space
  only).
\<close>

theorem decode_cellId:
  "(searchParams_get ''id'' (searchParams loc) = None \<longrightarrow> cellId (parseUrlState loc) = None)
   \<and> (searchParams_get ''id'' (searchParams loc) = Some [] \<longrightarrow> cellId (parseUrlState loc) = None)
   \<and> (searchParams_get ''id'' (searchParams loc) = Some v \<and> v \<noteq> [] \<longrightarrow>
         cellId (parseUrlState loc) = Some (trim v))
   \<and> (searchParams_get ''id'' (searchParams loc) = Some v \<and> \<not> all_ws v \<longrightarrow>
         cellId (parseUrlState loc) = Some (trim v) \<and> trim v \<noteq> [])"
proof (intro conjI impI)
  assume "searchParams_get ''id'' (searchParams loc) = None"
  then show "cellId (parseUrlState loc) = None"
    by (simp add: parseUrlState_def parse_hash_cellId empty_state_def)
next
  assume "searchParams_get ''id'' (searchParams loc) = Some []"
  then show "cellId (parseUrlState loc) = None"
    by (simp add: parseUrlState_def parse_hash_cellId empty_state_def)
next
  assume "searchParams_get ''id'' (searchParams loc) = Some v \<and> v \<noteq> []"
  then show "cellId (parseUrlState loc) = Some (trim v)"
    by (simp add: parseUrlState_def)
next
  assume a: "searchParams_get ''id'' (searchParams loc) = Some v \<and> \<not> all_ws v"
  then have "v \<noteq> []" by (auto simp: all_ws_def)
  with a show "cellId (parseUrlState loc) = Some (trim v)"
    by (simp add: parseUrlState_def)
  from a show "trim v \<noteq> []"
    by (simp add: trim_empty_iff all_ws_def list_all_iff)
qed

theorem decode_cellId_witness:
  "searchParams_get ''id'' [(''a'', ''b''), (''id'', '' A23 ''), (''id'', ''B2'')] = Some '' A23 ''
   \<and> cellId (parseUrlState \<lparr>hash = ''#map_1_2_3'',
         searchParams = [(''a'', ''b''), (''id'', '' A23 ''), (''id'', ''B2'')]\<rparr>) = Some ''A23''
   \<and> searchParams_get ''id'' [(''a'', ''b'')] = None
   \<and> cellId (parseUrlState \<lparr>hash = ''#map_1_2_3'', searchParams = [(''a'', ''b'')]\<rparr>) = None
   \<and> searchParams_get ''id'' [(''id'', [])] = Some []
   \<and> cellId (parseUrlState \<lparr>hash = ''#map_1_2_3'', searchParams = [(''id'', [])]\<rparr>) = None"
proof -
  have g: "searchParams_get ''id'' [(''a'', ''b''), (''id'', '' A23 ''), (''id'', ''B2'')] = Some '' A23 ''"
    "searchParams_get ''id'' [(''a'', ''b'')] = None"
    "searchParams_get ''id'' [(''id'', [])] = Some []"
    by (simp_all add: searchParams_get_def)
  have t: "trim '' A23 '' = ''A23''" by (simp add: trim_def is_ws_def)
  show ?thesis
    using g t
      decode_cellId [of "\<lparr>hash = ''#map_1_2_3'',
         searchParams = [(''a'', ''b''), (''id'', '' A23 ''), (''id'', ''B2'')]\<rparr>" "'' A23 ''"]
      decode_cellId [of "\<lparr>hash = ''#map_1_2_3'', searchParams = [(''a'', ''b'')]\<rparr>" "[]"]
      decode_cellId [of "\<lparr>hash = ''#map_1_2_3'', searchParams = [(''id'', [])]\<rparr>" "[]"]
    by simp
qed

text \<open>
  The claim as first stated has a value of white space only read as absent. The code tests
  the value before it trims it: the cell id is the empty string.
\<close>

theorem decode_cellId_blank_counterexample:
  "trim '' '' = []
   \<and> cellId (parseUrlState \<lparr>hash = [], searchParams = [(''id'', '' '')]\<rparr>) = Some []
   \<and> cellId (parseUrlState \<lparr>hash = [], searchParams = [(''id'', '' '')]\<rparr>) \<noteq> None"
  by (simp add: parseUrlState_cellId searchParams_get_def trim_def is_ws_def)

section \<open>The loader\<close>

lemma load_feature_error: "load_feature i f = Inl e \<Longrightarrow> e = TypeError"
  by (auto simp: load_feature_def destructure2_def Let_def
      split: if_splits sum.splits option.splits json.splits prod.splits)

lemma load_features_error: "load_features i fs = Inl e \<Longrightarrow> e = TypeError"
  by (induction fs arbitrary: i) (auto split: sum.splits dest: load_feature_error)

lemma load_parsed_no_features:
  "(\<forall>fs. opt_prop ''features'' (Some gj) \<noteq> Some (JArray fs)) \<Longrightarrow> load_parsed gj = Inl InvalidFormat"
  by (auto simp: load_parsed_def split: option.splits json.splits)

lemma load_parsed_InvalidFormat_iff:
  "load_parsed gj = Inl InvalidFormat \<longleftrightarrow> (\<forall>fs. opt_prop ''features'' (Some gj) \<noteq> Some (JArray fs))"
proof
  assume a: "load_parsed gj = Inl InvalidFormat"
  show "\<forall>fs. opt_prop ''features'' (Some gj) \<noteq> Some (JArray fs)"
  proof (intro allI notI)
    fix fs
    assume "opt_prop ''features'' (Some gj) = Some (JArray fs)"
    with a have "load_features 0 fs = Inl InvalidFormat" by (simp add: load_parsed_def)
    then show False using load_features_error by fastforce
  qed
qed (rule load_parsed_no_features)

lemma load_feature_missing_coordinates:
  "load_feature i (JObject [(''geometry'', JObject [(''type'', JString ''Point'')])]) = Inr None"
  by (simp add: load_feature_def opt_prop_def get_prop_def destructure2_def falsy_def)

lemma load_feature_skips:
  "load_feature i f = Inr None \<Longrightarrow> load_features i (f # fs) = load_features (Suc i) fs"
  by (simp split: sum.splits)

lemma load_skips_malformed_records:
  "load_parsed (JObject [(''features'', JArray
        [JObject [(''geometry'', JObject [(''type'', JString ''Point''),
                                          (''coordinates'', JArray [JNumber 46, JNumber 24])]),
                  (''properties'', JObject [(''cell_id'', JString ''A1'')])],
         JObject [(''geometry'', JObject [(''type'', JString ''Point'')])],
         JObject [(''geometry'', JObject [(''type'', JString ''Point''),
                                          (''coordinates'', JArray [JString ''46'', JNull])])],
         JObject [(''geometry'', JObject [(''type'', JString ''Point''),
                                          (''coordinates'', JArray [JNumber 47, JNumber 25])])]])])
   = Inr [\<lparr>point_id = ''point_0'', point_lat = 24, point_lng = 46, cell_id = JString ''A1''\<rparr>,
          \<lparr>point_id = ''point_3'', point_lat = 25, point_lng = 47, cell_id = JString ''Point_3''\<rparr>]"
  by (simp add: load_parsed_def load_feature_def opt_prop_def get_prop_def destructure2_def
      falsy_def nth_opt_def nullish_def toString_eval)

text \<open>
  Claim C9. A record with coordinates that are missing or not numbers is to be skipped, and
  the other records loaded. That holds when the coordinates are missing, \<open>null\<close>, an array or
  a string (\<open>load_skips_malformed_records\<close>). It fails for a record whose coordinates are
  an object: the destructuring throws, and the whole load fails though the document is a
  feature collection and its first record is well formed.
\<close>

theorem load_object_coordinates_fails:
  "load_parsed (JObject [(''type'', JString ''FeatureCollection''),
     (''features'', JArray
        [JObject [(''type'', JString ''Feature''),
                  (''geometry'', JObject [(''type'', JString ''Point''),
                                          (''coordinates'', JArray [JNumber 46, JNumber 24])]),
                  (''properties'', JObject [(''cell_id'', JString ''A1'')])],
         JObject [(''type'', JString ''Feature''),
                  (''geometry'', JObject [(''type'', JString ''Point''),
                                          (''coordinates'', JObject [(''lng'', JNumber 46),
                                                                     (''lat'', JNumber 24)])]),
                  (''properties'', JObject [(''cell_id'', JString ''A2'')])]])])
   = Inl TypeError"
  by (simp add: load_parsed_def load_feature_def opt_prop_def get_prop_def destructure2_def
      falsy_def nth_opt_def nullish_def toString_eval)

section \<open>The lookup and the suggestions\<close>

lemma find_point_None_iff:
  "find_point points q = Inr None \<longleftrightarrow>
     list_all (\<lambda>p. is_string (cell_id p) \<and> \<not> matches q p) points"
  by (induction points) (auto simp: is_string_def matches_def split: json.splits)

lemma find_point_Some_iff:
  "find_point points q = Inr (Some p) \<longleftrightarrow>
     (\<exists>i < length points. points ! i = p \<and> matches q p
        \<and> (\<forall>j < i. is_string (cell_id (points ! j)) \<and> \<not> matches q (points ! j)))"
proof (induction points)
  case Nil
  show ?case by simp
next
  case (Cons x xs)
  show ?case
  proof (cases "matches q x")
    case True
    then have l: "find_point (x # xs) q = Inr (Some x)"
      by (auto simp: matches_def split: json.splits)
    show ?thesis
    proof
      assume "find_point (x # xs) q = Inr (Some p)"
      with l have "p = x" by simp
      with True have "0 < length (x # xs) \<and> (x # xs) ! 0 = p \<and> matches q p
          \<and> (\<forall>j < 0. is_string (cell_id ((x # xs) ! j)) \<and> \<not> matches q ((x # xs) ! j))"
        by simp
      then show "\<exists>i < length (x # xs). (x # xs) ! i = p \<and> matches q p
          \<and> (\<forall>j < i. is_string (cell_id ((x # xs) ! j)) \<and> \<not> matches q ((x # xs) ! j))"
        by blast
    next
      assume "\<exists>i < length (x # xs). (x # xs) ! i = p \<and> matches q p
          \<and> (\<forall>j < i. is_string (cell_id ((x # xs) ! j)) \<and> \<not> matches q ((x # xs) ! j))"
      then obtain i where i: "i < length (x # xs)" "(x # xs) ! i = p"
        and m: "\<forall>j < i. is_string (cell_id ((x # xs) ! j)) \<and> \<not> matches q ((x # xs) ! j)"
        by blast
      have "i = 0"
      proof (rule ccontr)
        assume "i \<noteq> 0"
        then have "\<not> matches q ((x # xs) ! 0)" using m by blast
        with True show False by simp
      qed
      with i l show "find_point (x # xs) q = Inr (Some p)" by simp
    qed
  next
    case False
    show ?thesis
    proof (cases "is_string (cell_id x)")
      case s: True
      with False have l: "find_point (x # xs) q = find_point xs q"
        by (auto simp: matches_def is_string_def split: json.splits)
      show ?thesis
      proof
        assume "find_point (x # xs) q = Inr (Some p)"
        with l Cons.IH obtain i where i: "i < length xs" "xs ! i = p" "matches q p"
          and m: "\<forall>j < i. is_string (cell_id (xs ! j)) \<and> \<not> matches q (xs ! j)"
          by auto
        have "\<forall>j < Suc i. is_string (cell_id ((x # xs) ! j)) \<and> \<not> matches q ((x # xs) ! j)"
          using m s False by (auto simp: less_Suc_eq_0_disj)
        with i have "Suc i < length (x # xs) \<and> (x # xs) ! Suc i = p \<and> matches q p
            \<and> (\<forall>j < Suc i. is_string (cell_id ((x # xs) ! j)) \<and> \<not> matches q ((x # xs) ! j))"
          by simp
        then show "\<exists>i < length (x # xs). (x # xs) ! i = p \<and> matches q p
            \<and> (\<forall>j < i. is_string (cell_id ((x # xs) ! j)) \<and> \<not> matches q ((x # xs) ! j))"
          by blast
      next
        assume "\<exists>i < length (x # xs). (x # xs) ! i = p \<and> matches q p
            \<and> (\<forall>j < i. is_string (cell_id ((x # xs) ! j)) \<and> \<not> matches q ((x # xs) ! j))"
        then obtain i where i: "i < length (x # xs)" "(x # xs) ! i = p" "matches q p"
          and m: "\<forall>j < i. is_string (cell_id ((x # xs) ! j)) \<and> \<not> matches q ((x # xs) ! j)"
          by blast
        from i False have "i \<noteq> 0" by (cases i) auto
        then obtain k where k: "i = Suc k" by (cases i) auto
        have "\<forall>j < k. is_string (cell_id (xs ! j)) \<and> \<not> matches q (xs ! j)"
        proof (intro allI impI)
          fix j assume "j < k"
          then have "Suc j < i" using k by simp
          with m have "is_string (cell_id ((x # xs) ! Suc j)) \<and> \<not> matches q ((x # xs) ! Suc j)"
            by blast
          then show "is_string (cell_id (xs ! j)) \<and> \<not> matches q (xs ! j)" by simp
        qed
        with i k have "\<exists>i < length xs. xs ! i = p \<and> matches q p
            \<and> (\<forall>j < i. is_string (cell_id (xs ! j)) \<and> \<not> matches q (xs ! j))"
          by auto
        with Cons.IH l show "find_point (x # xs) q = Inr (Some p)" by simp
      qed
    next
      case ns: False
      then have l: "find_point (x # xs) q = Inl TypeError"
        by (auto simp: is_string_def split: json.splits)
      show ?thesis
      proof
        assume "find_point (x # xs) q = Inr (Some p)"
        with l show "\<exists>i < length (x # xs). (x # xs) ! i = p \<and> matches q p
            \<and> (\<forall>j < i. is_string (cell_id ((x # xs) ! j)) \<and> \<not> matches q ((x # xs) ! j))"
          by simp
      next
        assume "\<exists>i < length (x # xs). (x # xs) ! i = p \<and> matches q p
            \<and> (\<forall>j < i. is_string (cell_id ((x # xs) ! j)) \<and> \<not> matches q ((x # xs) ! j))"
        then obtain i where i: "i < length (x # xs)" "(x # xs) ! i = p" "matches q p"
          and m: "\<forall>j < i. is_string (cell_id ((x # xs) ! j)) \<and> \<not> matches q ((x # xs) ! j)"
          by blast
        from i False have "i \<noteq> 0" by (cases i) auto
        then have "is_string (cell_id ((x # xs) ! 0))" using m by blast
        with ns show "find_point (x # xs) q = Inr (Some p)" by simp
      qed
    qed
  qed
qed

lemma find_point_Some_match:
  "find_point points q = Inr (Some p) \<Longrightarrow> p \<in> set points \<and> matches q p"
  unfolding find_point_Some_iff by auto

lemma find_point_no_match:
  "list_all (\<lambda>p. \<not> matches q p) points \<Longrightarrow> find_point points q \<noteq> Inr (Some p)"
  using find_point_Some_match [of points q p] by (auto simp: list_all_iff)

lemma find_point_error: "find_point points q = Inl e \<Longrightarrow> e = TypeError"
  by (induction points) (auto split: json.splits if_splits)

text \<open>On points whose cell ids are all strings the lookup is \<open>find\<close> with the match as its
  test: the first match in the order of the list, or nothing.\<close>

lemma find_point_strings:
  "list_all (\<lambda>p. is_string (cell_id p)) points \<Longrightarrow> find_point points q = Inr (find (matches q) points)"
  by (induction points) (auto simp: is_string_def matches_def split: json.splits)

lemma filter_cells_strings:
  "list_all (\<lambda>p. is_string (cell_id p)) points \<Longrightarrow>
     filter_cells points lower =
       Inr (filter (\<lambda>s. js_includes (toLowerCase s) lower) (string_cells points))"
  by (induction points) (auto simp: is_string_def string_cells_def split: json.splits)

lemma filter_cells_throws:
  "\<not> list_all (\<lambda>p. is_string (cell_id p)) points \<Longrightarrow> filter_cells points lower = Inl TypeError"
  by (induction points) (auto simp: is_string_def split: json.splits sum.splits)

text \<open>
  On points whose cell ids are all strings, the suggestions for a query that is not blank
  are the cell ids that contain the query, letter case aside, in ascending order; a blank
  query has none; the search box trims what was typed and keeps the first five.
\<close>

lemma suggestions_sorted_matches:
  assumes "list_all (\<lambda>p. is_string (cell_id p)) (surveyPoints mc)"
  shows "getSuggestions mc q =
      Inr (if trim q = [] then []
           else sort (filter (\<lambda>s. contains_ci s q) (string_cells (surveyPoints mc))))"
    and "handleInputChange (getSuggestions mc) v =
      Inr (take 5 (if trim v = [] then []
                   else sort (filter (\<lambda>s. contains_ci s (trim v)) (string_cells (surveyPoints mc)))),
           take 5 (if trim v = [] then []
                   else sort (filter (\<lambda>s. contains_ci s (trim v)) (string_cells (surveyPoints mc)))) \<noteq> [])"
proof -
  show g: "getSuggestions mc q =
      Inr (if trim q = [] then []
           else sort (filter (\<lambda>s. contains_ci s q) (string_cells (surveyPoints mc))))" for q
    using assms
    by (simp add: getSuggestions_def Let_def filter_cells_strings js_includes_contains_ci)
  show "handleInputChange (getSuggestions mc) v =
      Inr (take 5 (if trim v = [] then []
                   else sort (filter (\<lambda>s. contains_ci s (trim v)) (string_cells (surveyPoints mc)))),
           take 5 (if trim v = [] then []
                   else sort (filter (\<lambda>s. contains_ci s (trim v)) (string_cells (surveyPoints mc)))) \<noteq> [])"
    by (simp add: handleInputChange_def g trim_trim Let_def)
qed

lemma suggestions_blank: "trim q = [] \<Longrightarrow> getSuggestions mc q = Inr []"
  by (simp add: getSuggestions_def)

lemma suggestions_throw:
  "trim q \<noteq> [] \<Longrightarrow> \<not> list_all (\<lambda>p. is_string (cell_id p)) (surveyPoints mc) \<Longrightarrow>
     getSuggestions mc q = Inl TypeError"
  by (simp add: getSuggestions_def Let_def filter_cells_throws)

lemmas load_eval = load_parsed_def load_feature_def opt_prop_def get_prop_def destructure2_def
  falsy_def nth_opt_def nullish_def toString_eval

text \<open>
  Claim C4. The lookup is to return the first point whose cell id equals the query, letter
  case aside, and nothing when there is none. On points whose cell ids are strings it does
  (\<open>find_point_strings\<close>, \<open>find_point_Some_iff\<close>). The loader stores a cell id that is a number
  as a number, and on the collection it returns the lookup throws at that point: for a
  query that a later point matches, and for a query that no point matches.
\<close>

theorem lookup_throws_on_numeric_cell_id:
  "load_parsed (JObject [(''type'', JString ''FeatureCollection''),
     (''features'', JArray
        [JObject [(''type'', JString ''Feature''),
                  (''geometry'', JObject [(''type'', JString ''Point''),
                                          (''coordinates'', JArray [JNumber 46, JNumber 24])]),
                  (''properties'', JObject [(''cell_id'', JNumber 23)])],
         JObject [(''type'', JString ''Feature''),
                  (''geometry'', JObject [(''type'', JString ''Point''),
                                          (''coordinates'', JArray [JNumber 47, JNumber 25])]),
                  (''properties'', JObject [(''cell_id'', JString ''A23'')])]])])
     = Inr [\<lparr>point_id = ''point_0'', point_lat = 24, point_lng = 46, cell_id = JNumber 23\<rparr>,
            \<lparr>point_id = ''point_1'', point_lat = 25, point_lng = 47, cell_id = JString ''A23''\<rparr>]
   \<and> matches ''A23''
        \<lparr>point_id = ''point_1'', point_lat = 25, point_lng = 47, cell_id = JString ''A23''\<rparr>
   \<and> find_point
        [\<lparr>point_id = ''point_0'', point_lat = 24, point_lng = 46, cell_id = JNumber 23\<rparr>,
         \<lparr>point_id = ''point_1'', point_lat = 25, point_lng = 47, cell_id = JString ''A23''\<rparr>]
        ''A23'' = Inl TypeError
   \<and> find_point
        [\<lparr>point_id = ''point_0'', point_lat = 24, point_lng = 46, cell_id = JNumber 23\<rparr>,
         \<lparr>point_id = ''point_1'', point_lat = 25, point_lng = 47, cell_id = JString ''A23''\<rparr>]
        ''Z99'' = Inl TypeError"
  by (simp add: load_eval matches_def)

text \<open>
  Claim C5. The suggestions are to be the cell ids that contain the query, in order. On
  points whose cell ids are strings they are (\<open>suggestions_sorted_matches\<close>). On a loaded
  collection with a cell id that is a number the filter throws for every query that is not
  blank, and the search box, which catches nothing, gets no suggestions at all.
\<close>

theorem suggestions_throw_on_numeric_cell_id:
  "load_parsed (JObject [(''type'', JString ''FeatureCollection''),
     (''features'', JArray
        [JObject [(''type'', JString ''Feature''),
                  (''geometry'', JObject [(''type'', JString ''Point''),
                                          (''coordinates'', JArray [JNumber 46, JNumber 24])]),
                  (''properties'', JObject [(''cell_id'', JString ''A1'')])],
         JObject [(''type'', JString ''Feature''),
                  (''geometry'', JObject [(''type'', JString ''Point''),
                                          (''coordinates'', JArray [JNumber 47, JNumber 25])]),
                  (''properties'', JObject [(''cell_id'', JNumber 7)])]])])
     = Inr [\<lparr>point_id = ''point_0'', point_lat = 24, point_lng = 46, cell_id = JString ''A1''\<rparr>,
            \<lparr>point_id = ''point_1'', point_lat = 25, point_lng = 47, cell_id = JNumber 7\<rparr>]
   \<and> getSuggestions
        \<lparr>surveyPoints =
           [\<lparr>point_id = ''point_0'', point_lat = 24, point_lng = 46, cell_id = JString ''A1''\<rparr>,
            \<lparr>point_id = ''point_1'', point_lat = 25, point_lng = 47, cell_id = JNumber 7\<rparr>],
         map_ready = True, flyTo_calls = []\<rparr> ''a'' = Inl TypeError
   \<and> handleInputChange (getSuggestions
        \<lparr>surveyPoints =
           [\<lparr>point_id = ''point_0'', point_lat = 24, point_lng = 46, cell_id = JString ''A1''\<rparr>,
            \<lparr>point_id = ''point_1'', point_lat = 25, point_lng = 47, cell_id = JNumber 7\<rparr>],
         map_ready = True, flyTo_calls = []\<rparr>) ''a'' = Inl TypeError"
  by (simp add: load_eval getSuggestions_def handleInputChange_def string_eval)

section \<open>The search\<close>

lemma handleSearchById_unmounted: "mapRef pg = None \<Longrightarrow> handleSearchById pg q = (False, pg)"
  by (simp add: handleSearchById_def)

lemma handleSearchById_no_match:
  assumes "mapRef pg = Some mc" "find_point (surveyPoints mc) (trim q) = Inr None"
  shows "handleSearchById pg q =
      (False, pg\<lparr>mapRef := Some mc, searchError := Some (not_found_message q),
                 isSearching := False\<rparr>)"
  using assms by (simp add: handleSearchById_def searchAndFlyTo_def Let_def)

lemma handleSearchById_throw:
  assumes "mapRef pg = Some mc" "find_point (surveyPoints mc) (trim q) = Inl e"
  shows "handleSearchById pg q =
      (False, pg\<lparr>searchError := Some ''Search failed'', isSearching := False\<rparr>)"
  using assms by (simp add: handleSearchById_def searchAndFlyTo_def Let_def)

text \<open>
  Claim C6, as amended. When no point of the loaded dataset matches the trimmed query, the
  search returns false and the address, so the cell id a parse reads from it, is as
  before. When moreover the map component is mounted and every cell id of the dataset is a
  string, the page shows the message that names the query as it was typed.
\<close>

theorem not_found_search:
  "(list_all (\<lambda>p. \<not> matches (trim q) p) (dataset pg) \<longrightarrow>
       fst (handleSearchById pg q) = False
       \<and> location (snd (handleSearchById pg q)) = location pg
       \<and> cellId (parseUrlState (location (snd (handleSearchById pg q)))) =
           cellId (parseUrlState (location pg)))
   \<and> (mapRef pg \<noteq> None
       \<and> list_all (\<lambda>p. is_string (cell_id p) \<and> \<not> matches (trim q) p) (dataset pg) \<longrightarrow>
       searchError (snd (handleSearchById pg q)) =
         Some (''Cell ID '' @ [CHR 0x22] @ q @ [CHR 0x22] @ '' not found''))"
proof (intro conjI impI)
  assume a: "list_all (\<lambda>p. \<not> matches (trim q) p) (dataset pg)"
  have "fst (handleSearchById pg q) = False \<and> location (snd (handleSearchById pg q)) = location pg"
  proof (cases "mapRef pg")
    case None
    then show ?thesis by (simp add: handleSearchById_unmounted)
  next
    case (Some mc)
    then have d: "dataset pg = surveyPoints mc" by (simp add: dataset_def)
    show ?thesis
    proof (cases "find_point (surveyPoints mc) (trim q)")
      case (Inl e)
      then show ?thesis using handleSearchById_throw [OF Some Inl] by simp
    next
      case (Inr r)
      with a d have "r = None"
        using find_point_no_match [of "trim q" "surveyPoints mc"] by (cases r) auto
      with Inr show ?thesis using handleSearchById_no_match [OF Some] by simp
    qed
  qed
  then show "fst (handleSearchById pg q) = False"
    and l: "location (snd (handleSearchById pg q)) = location pg" by simp_all
  show "cellId (parseUrlState (location (snd (handleSearchById pg q)))) =
           cellId (parseUrlState (location pg))"
    unfolding l ..
next
  assume a: "mapRef pg \<noteq> None
       \<and> list_all (\<lambda>p. is_string (cell_id p) \<and> \<not> matches (trim q) p) (dataset pg)"
  then obtain mc where mc: "mapRef pg = Some mc" by auto
  then have "dataset pg = surveyPoints mc" by (simp add: dataset_def)
  with a have "find_point (surveyPoints mc) (trim q) = Inr None"
    by (simp add: find_point_None_iff)
  then show "searchError (snd (handleSearchById pg q)) =
         Some (''Cell ID '' @ [CHR 0x22] @ q @ [CHR 0x22] @ '' not found'')"
    using handleSearchById_no_match [OF mc] by (simp add: not_found_message_def)
qed

text \<open>
  Claim C7, as amended. When the lookup over the loaded dataset resolves the trimmed query
  to a point and the map widget is there, the search returns true and stores the trimmed
  query in the address: a parse of the address gives the trimmed query (no cell id when it
  is empty), which is the cell id of the point up to letter case.
\<close>

theorem found_search_stores_query:
  assumes "find_point (dataset pg) (trim q) = Inr (Some p)" and "widget_ready pg"
  shows "fst (handleSearchById pg q) = True
     \<and> cellId (parseUrlState (location (snd (handleSearchById pg q)))) =
         (if trim q = [] then None else Some (trim q))
     \<and> matches (trim q) p"
proof -
  obtain mc where mc: "mapRef pg = Some mc"
    using assms(2) by (cases "mapRef pg") (auto simp: widget_ready_def)
  then have d: "dataset pg = surveyPoints mc" and r: "map_ready mc"
    using assms(2) by (simp_all add: dataset_def widget_ready_def)
  have m: "matches (trim q) p"
    using find_point_Some_match [OF assms(1)] by simp
  have s: "searchAndFlyTo mc (trim q) =
      Inr (True, mc\<lparr>flyTo_calls := flyTo_calls mc @ [(point_lat p, point_lng p, 16)]\<rparr>)"
    using assms(1) r unfolding d by (simp add: searchAndFlyTo_def)
  have res: "handleSearchById pg q =
      (True, pg\<lparr>isSearching := True, searchError := None,
                mapRef := Some (mc\<lparr>flyTo_calls := flyTo_calls mc @ [(point_lat p, point_lng p, 16)]\<rparr>),
                location := updateUrlState (location pg) (empty_state\<lparr>cellId := Some (trim q)\<rparr>),
                isSearching := False\<rparr>)"
    using mc by (simp add: handleSearchById_def Let_def s)
  have u: "searchParams (updateUrlState (location pg) (empty_state\<lparr>cellId := Some (trim q)\<rparr>)) =
      (if trim q = [] then searchParams_delete ''id'' (searchParams (location pg))
       else searchParams_set ''id'' (trim q) (searchParams (location pg)))"
    by (simp add: updateUrlState_def empty_state_def Let_def)
  have "cellId (parseUrlState (location (snd (handleSearchById pg q)))) =
         (if trim q = [] then None else Some (trim q))"
    unfolding res parseUrlState_cellId
    by (simp add: u searchParams_get_set searchParams_get_delete trim_trim)
  with res m show ?thesis by simp
qed

theorem not_found_search_witness:
  "fst (handleSearchById
     \<lparr>location = \<lparr>hash = ''#map_1_2_3'', searchParams = [(''id'', ''B2'')]\<rparr>,
      mapRef = Some \<lparr>surveyPoints =
        [\<lparr>point_id = ''point_0'', point_lat = 1, point_lng = 2, cell_id = JString ''B2''\<rparr>,
         \<lparr>point_id = ''point_1'', point_lat = 3, point_lng = 4, cell_id = JString ''A23''\<rparr>],
        map_ready = True, flyTo_calls = []\<rparr>,
      isSearching = False, searchError = None\<rparr> ''Z99'') = False
   \<and> searchError (snd (handleSearchById
     \<lparr>location = \<lparr>hash = ''#map_1_2_3'', searchParams = [(''id'', ''B2'')]\<rparr>,
      mapRef = Some \<lparr>surveyPoints =
        [\<lparr>point_id = ''point_0'', point_lat = 1, point_lng = 2, cell_id = JString ''B2''\<rparr>,
         \<lparr>point_id = ''point_1'', point_lat = 3, point_lng = 4, cell_id = JString ''A23''\<rparr>],
        map_ready = True, flyTo_calls = []\<rparr>,
      isSearching = False, searchError = None\<rparr> ''Z99'')) =
       Some (''Cell ID '' @ [CHR 0x22] @ ''Z99'' @ [CHR 0x22] @ '' not found'')
   \<and> cellId (parseUrlState (location (snd (handleSearchById
     \<lparr>location = \<lparr>hash = ''#map_1_2_3'', searchParams = [(''id'', ''B2'')]\<rparr>,
      mapRef = Some \<lparr>surveyPoints =
        [\<lparr>point_id = ''point_0'', point_lat = 1, point_lng = 2, cell_id = JString ''B2''\<rparr>,
         \<lparr>point_id = ''point_1'', point_lat = 3, point_lng = 4, cell_id = JString ''A23''\<rparr>],
        map_ready = True, flyTo_calls = []\<rparr>,
      isSearching = False, searchError = None\<rparr> ''Z99'')))) = Some ''B2''"
proof -
  let ?mc = "\<lparr>surveyPoints =
        [\<lparr>point_id = ''point_0'', point_lat = 1, point_lng = 2, cell_id = JString ''B2''\<rparr>,
         \<lparr>point_id = ''point_1'', point_lat = 3, point_lng = 4, cell_id = JString ''A23''\<rparr>],
        map_ready = True, flyTo_calls = []\<rparr>"
  let ?pg = "\<lparr>location = \<lparr>hash = ''#map_1_2_3'', searchParams = [(''id'', ''B2'')]\<rparr>,
      mapRef = Some ?mc, isSearching = False, searchError = None\<rparr>"
  have t: "trim ''Z99'' = ''Z99''" by (simp add: trim_def is_ws_def)
  have a: "list_all (\<lambda>p. \<not> matches (trim ''Z99'') p) (dataset ?pg)"
    unfolding t by (simp add: dataset_def matches_def string_eval)
  have b: "mapRef ?pg \<noteq> None
       \<and> list_all (\<lambda>p. is_string (cell_id p) \<and> \<not> matches (trim ''Z99'') p) (dataset ?pg)"
    unfolding t by (simp add: dataset_def matches_def is_string_def string_eval)
  have c: "cellId (parseUrlState (location ?pg)) = Some ''B2''"
    by (simp add: parseUrlState_cellId searchParams_get_def string_eval)
  note th = not_found_search [of "''Z99''" ?pg]
  from th a have "fst (handleSearchById ?pg ''Z99'') = False
       \<and> location (snd (handleSearchById ?pg ''Z99'')) = location ?pg
       \<and> cellId (parseUrlState (location (snd (handleSearchById ?pg ''Z99'')))) =
           cellId (parseUrlState (location ?pg))"
    by blast
  moreover from th b have "searchError (snd (handleSearchById ?pg ''Z99'')) =
         Some (''Cell ID '' @ [CHR 0x22] @ ''Z99'' @ [CHR 0x22] @ '' not found'')"
    by blast
  ultimately show ?thesis using c by simp
qed

text \<open>
  The claim as first stated promises the message for every query that no point matches.
  While the map component is not mounted the first guard of the search returns false and
  sets no message.
\<close>

theorem not_found_unmounted_counterexample:
  "dataset \<lparr>location = \<lparr>hash = ''#map_1_2_3'', searchParams = []\<rparr>, mapRef = None,
            isSearching = False, searchError = None\<rparr> = []
   \<and> fst (handleSearchById
        \<lparr>location = \<lparr>hash = ''#map_1_2_3'', searchParams = []\<rparr>, mapRef = None,
         isSearching = False, searchError = None\<rparr> ''Z99'') = False
   \<and> searchError (snd (handleSearchById
        \<lparr>location = \<lparr>hash = ''#map_1_2_3'', searchParams = []\<rparr>, mapRef = None,
         isSearching = False, searchError = None\<rparr> ''Z99'')) = None"
  by (simp add: dataset_def handleSearchById_def)

theorem found_search_stores_query_witness:
  "fst (handleSearchById
     \<lparr>location = \<lparr>hash = ''#map_1_2_3'', searchParams = []\<rparr>,
      mapRef = Some \<lparr>surveyPoints =
        [\<lparr>point_id = ''point_0'', point_lat = 1, point_lng = 2, cell_id = JString ''B2''\<rparr>,
         \<lparr>point_id = ''point_1'', point_lat = 3, point_lng = 4, cell_id = JString ''A23''\<rparr>],
        map_ready = True, flyTo_calls = []\<rparr>,
      isSearching = False, searchError = None\<rparr> '' A23 '') = True
   \<and> cellId (parseUrlState (location (snd (handleSearchById
     \<lparr>location = \<lparr>hash = ''#map_1_2_3'', searchParams = []\<rparr>,
      mapRef = Some \<lparr>surveyPoints =
        [\<lparr>point_id = ''point_0'', point_lat = 1, point_lng = 2, cell_id = JString ''B2''\<rparr>,
         \<lparr>point_id = ''point_1'', point_lat = 3, point_lng = 4, cell_id = JString ''A23''\<rparr>],
        map_ready = True, flyTo_calls = []\<rparr>,
      isSearching = False, searchError = None\<rparr> '' A23 '')))) = Some ''A23''"
proof -
  let ?p = "\<lparr>point_id = ''point_1'', point_lat = 3, point_lng = 4, cell_id = JString ''A23''\<rparr>"
  let ?mc = "\<lparr>surveyPoints =
        [\<lparr>point_id = ''point_0'', point_lat = 1, point_lng = 2, cell_id = JString ''B2''\<rparr>, ?p],
        map_ready = True, flyTo_calls = []\<rparr>"
  let ?pg = "\<lparr>location = \<lparr>hash = ''#map_1_2_3'', searchParams = []\<rparr>,
      mapRef = Some ?mc, isSearching = False, searchError = None\<rparr>"
  have t: "trim '' A23 '' = ''A23''" by (simp add: trim_def is_ws_def)
  have a: "find_point (dataset ?pg) (trim '' A23 '') = Inr (Some ?p)"
    unfolding t by (simp add: dataset_def string_eval)
  have b: "widget_ready ?pg" by (simp add: widget_ready_def)
  show ?thesis
    using found_search_stores_query [OF a b] unfolding t by simp
qed

text \<open>
  The claim as first stated has the cell id of the point stored, for every query that
  matches. The query \<open>a23\<close> finds the point \<open>A23\<close> and the address holds \<open>a23\<close>; without the map
  widget the search returns false though the point is found; and the empty query that finds
  a point with an empty cell id removes the parameter.
\<close>

theorem found_search_counterexample:
  "find_point
     [\<lparr>point_id = ''point_0'', point_lat = 1, point_lng = 2, cell_id = JString ''A23''\<rparr>] ''a23''
     = Inr (Some \<lparr>point_id = ''point_0'', point_lat = 1, point_lng = 2, cell_id = JString ''A23''\<rparr>)
   \<and> fst (handleSearchById
     \<lparr>location = \<lparr>hash = [], searchParams = []\<rparr>,
      mapRef = Some \<lparr>surveyPoints =
        [\<lparr>point_id = ''point_0'', point_lat = 1, point_lng = 2, cell_id = JString ''A23''\<rparr>],
        map_ready = True, flyTo_calls = []\<rparr>,
      isSearching = False, searchError = None\<rparr> ''a23'') = True
   \<and> cellId (parseUrlState (location (snd (handleSearchById
     \<lparr>location = \<lparr>hash = [], searchParams = []\<rparr>,
      mapRef = Some \<lparr>surveyPoints =
        [\<lparr>point_id = ''point_0'', point_lat = 1, point_lng = 2, cell_id = JString ''A23''\<rparr>],
        map_ready = True, flyTo_calls = []\<rparr>,
      isSearching = False, searchError = None\<rparr> ''a23'')))) = Some ''a23''
   \<and> cellId (parseUrlState (location (snd (handleSearchById
     \<lparr>location = \<lparr>hash = [], searchParams = []\<rparr>,
      mapRef = Some \<lparr>surveyPoints =
        [\<lparr>point_id = ''point_0'', point_lat = 1, point_lng = 2, cell_id = JString ''A23''\<rparr>],
        map_ready = True, flyTo_calls = []\<rparr>,
      isSearching = False, searchError = None\<rparr> ''a23'')))) \<noteq> Some ''A23''
   \<and> fst (handleSearchById
     \<lparr>location = \<lparr>hash = [], searchParams = []\<rparr>,
      mapRef = Some \<lparr>surveyPoints =
        [\<lparr>point_id = ''point_0'', point_lat = 1, point_lng = 2, cell_id = JString ''A23''\<rparr>],
        map_ready = False, flyTo_calls = []\<rparr>,
      isSearching = False, searchError = None\<rparr> ''A23'') = False
   \<and> find_point
     [\<lparr>point_id = ''point_0'', point_lat = 1, point_lng = 2, cell_id = JString []\<rparr>] []
     = Inr (Some \<lparr>point_id = ''point_0'', point_lat = 1, point_lng = 2, cell_id = JString []\<rparr>)
   \<and> fst (handleSearchById
     \<lparr>location = \<lparr>hash = [], searchParams = [(''id'', ''B2'')]\<rparr>,
      mapRef = Some \<lparr>surveyPoints =
        [\<lparr>point_id = ''point_0'', point_lat = 1, point_lng = 2, cell_id = JString []\<rparr>],
        map_ready = True, flyTo_calls = []\<rparr>,
      isSearching = False, searchError = None\<rparr> []) = True
   \<and> cellId (parseUrlState (location (snd (handleSearchById
     \<lparr>location = \<lparr>hash = [], searchParams = [(''id'', ''B2'')]\<rparr>,
      mapRef = Some \<lparr>surveyPoints =
        [\<lparr>point_id = ''point_0'', point_lat = 1, point_lng = 2, cell_id = JString []\<rparr>],
        map_ready = True, flyTo_calls = []\<rparr>,
      isSearching = False, searchError = None\<rparr> [])))) = None"
  by (simp add: search_eval string_eval)

end
